theory Spec2Isabelle
  imports Complex_Main
begin

section \<open>The fuzz harness of \<^verbatim>\<open>fuzz.py\<close>\<close>

text \<open>
  A shallow embedding of \<^verbatim>\<open>fuzz.py\<close>: the reporter class \<^verbatim>\<open>FuzzReporter\<close>, the
  input generators and the five campaigns of class \<^verbatim>\<open>Fuzzer\<close>, and \<^verbatim>\<open>main\<close>.
  Python integers are \<^typ>\<open>int\<close>, strings are \<^typ>\<open>string\<close>, a raised exception is the
  \<open>Inl\<close> side of a sum, object state is passed explicitly.
\<close>

subsection \<open>Python values and exceptions\<close>

text \<open>
  Datetimes are kept symbolic: the constructor call \<^verbatim>\<open>datetime(y, m, d)\<close>, the sum
  \<^verbatim>\<open>d + timedelta(days=k)\<close>, and the reading of the clock \<^verbatim>\<open>datetime.now()\<close>, tagged
  with the moment of the call. Their rendering by \<^verbatim>\<open>str\<close> belongs to the library and is
  a parameter of the model.
\<close>

datatype datetime =
    Datetime int int int
  | Plus_days datetime int
  | Now nat

text \<open>
  The values that the harness hands to the operations under test or receives from them:
  \<^verbatim>\<open>None\<close>, integers, strings, the literals \<^verbatim>\<open>[]\<close> and \<^verbatim>\<open>{}\<close>, datetimes, and any other
  object, known only by its \<^verbatim>\<open>str\<close> rendering.
\<close>

datatype pyval =
    PNone
  | PInt int
  | PStr string
  | PEmptyList
  | PEmptyDict
  | PDatetime datetime
  | PObject string

text \<open>
  An exception object, as far as the harness looks at it: \<^verbatim>\<open>type(e).__name__\<close>,
  \<^verbatim>\<open>str(e)\<close>, what \<^verbatim>\<open>traceback.format_exc()\<close> prints while it is being handled, whether
  it is an instance of \<^verbatim>\<open>Exception\<close> (what \<^verbatim>\<open>except Exception\<close> tests), and its truth
  value (what \<^verbatim>\<open>if error:\<close> tests). For an instance of \<^verbatim>\<open>SystemExit\<close> the last field
  holds the status with which the interpreter ends the process when nothing catches the
  exception; for every other exception it is \<open>None\<close>.
\<close>

record py_exception =
  exc_type :: string
  exc_msg :: string
  exc_traceback :: string
  exc_is_Exception :: bool
  exc_truthy :: bool
  exc_exit_status :: "int option"

definition builtin_error :: "string \<Rightarrow> string \<Rightarrow> py_exception" where
  "builtin_error name msg =
     \<lparr>exc_type = name, exc_msg = msg, exc_traceback = [],
      exc_is_Exception = True, exc_truthy = True, exc_exit_status = None\<rparr>"

definition ZeroDivisionError :: py_exception where
  "ZeroDivisionError = builtin_error ''ZeroDivisionError'' ''division by zero''"

subsection \<open>FuzzReporter\<close>

text \<open>The dictionary \<^verbatim>\<open>bug_info\<close> of \<^verbatim>\<open>log_test\<close>, one field per key.\<close>

record bug_info =
  bug_method :: string
  bug_input :: string
  bug_error_type :: string
  bug_error_msg :: string
  bug_traceback :: string

record FuzzReporter =
  bugs_found :: "bug_info list"
  test_count :: int
  crash_count :: int

text \<open>\<^verbatim>\<open>FuzzReporter.__init__\<close>\<close>

definition FuzzReporter_init :: FuzzReporter where
  "FuzzReporter_init = \<lparr>bugs_found = [], test_count = 0, crash_count = 0\<rparr>"

text \<open>
  \<^verbatim>\<open>if error:\<close> holds when \<^verbatim>\<open>error\<close> is not \<^verbatim>\<open>None\<close> and the exception object is
  truthy.
\<close>

definition error_is_true :: "py_exception option \<Rightarrow> bool" where
  "error_is_true error = (case error of None \<Rightarrow> False | Some e \<Rightarrow> exc_truthy e)"

text \<open>
  \<^verbatim>\<open>FuzzReporter.log_test\<close>. Every call site passes a string as \<^verbatim>\<open>input_data\<close>, so
  \<^verbatim>\<open>str(input_data)[:100]\<close> is \<open>take 100\<close>. The argument \<^verbatim>\<open>result\<close> is not used by
  the body.
\<close>

definition log_test ::
  "FuzzReporter \<Rightarrow> string \<Rightarrow> string \<Rightarrow> pyval \<Rightarrow> py_exception option \<Rightarrow> FuzzReporter" where
  "log_test self method_name input_data result error =
     (let self1 = self\<lparr>test_count := test_count self + 1\<rparr> in
      case error of
        None \<Rightarrow> self1
      | Some e \<Rightarrow>
          if exc_truthy e then
            self1\<lparr>crash_count := crash_count self1 + 1,
                  bugs_found := bugs_found self1 @
                    [\<lparr>bug_method = method_name,
                      bug_input = take 100 input_data,
                      bug_error_type = exc_type e,
                      bug_error_msg = exc_msg e,
                      bug_traceback = exc_traceback e\<rparr>]\<rparr>
          else self1)"

text \<open>
  What \<^verbatim>\<open>generate_report\<close> prints and writes: the two counters, the success rate and the
  detailed bug entries. The console view and the file hold the same data, so one record
  stands for both. The rate is Python's true division; it is modelled exactly, as a
  rational number, and its rendering with two decimals is left out.
\<close>

record fuzz_report =
  rep_total :: int
  rep_failures :: int
  rep_success_rate :: rat
  rep_bugs :: "bug_info list"

text \<open>
  \<^verbatim>\<open>FuzzReporter.generate_report\<close>. The division of line 66 is not guarded: with
  \<^verbatim>\<open>test_count = 0\<close> it raises \<^verbatim>\<open>ZeroDivisionError\<close> before anything is written.
\<close>

definition generate_report :: "FuzzReporter \<Rightarrow> py_exception + fuzz_report" where
  "generate_report self =
     (if test_count self = 0 then Inl ZeroDivisionError
      else Inr \<lparr>rep_total = test_count self,
                rep_failures = crash_count self,
                rep_success_rate =
                  of_int (test_count self - crash_count self) / of_int (test_count self) * 100,
                rep_bugs = bugs_found self\<rparr>)"

text \<open>A sequence of \<^verbatim>\<open>log_test\<close> calls, each given by its four arguments.\<close>

type_synonym log_call = "string \<times> string \<times> pyval \<times> py_exception option"

fun log_calls :: "FuzzReporter \<Rightarrow> log_call list \<Rightarrow> FuzzReporter" where
  "log_calls self [] = self"
| "log_calls self ((m, i, r, e) # cs) = log_calls (log_test self m i r e) cs"

subsection \<open>The world outside the harness\<close>

text \<open>
  An operation under test either returns a value or raises: \<open>Inr\<close> the value,
  \<open>Inl\<close> the exception.
\<close>

type_synonym outcome = "py_exception + pyval"

text \<open>
  What the harness does not decide is a parameter: the random source, the names the
  operating system gives to temporary files and directories, the rendering of datetimes,
  and the five operations of \<^verbatim>\<open>py_parser\<close>, \<^verbatim>\<open>mining\<close> and \<^verbatim>\<open>lint_engine\<close>. Each of them
  takes the moment of the call as its first argument, so that an operation may answer
  the same arguments differently at different moments (a file that vanished, a resource
  that ran out).
\<close>

record env =
  entropy :: "nat \<Rightarrow> nat"
  temp_file_name :: "nat \<Rightarrow> string"
  temp_dir_name :: "nat \<Rightarrow> string"
  str_datetime :: "datetime \<Rightarrow> string"
  getPythonParseObject :: "nat \<Rightarrow> pyval \<Rightarrow> outcome"
  checkLoggingPerData :: "nat \<Rightarrow> pyval \<Rightarrow> pyval \<Rightarrow> outcome"
  days_between :: "nat \<Rightarrow> pyval \<Rightarrow> pyval \<Rightarrow> outcome"
  getPythonFileCount :: "nat \<Rightarrow> pyval \<Rightarrow> outcome"
  getDataLoadCount :: "nat \<Rightarrow> pyval \<Rightarrow> outcome"

text \<open>
  What the harness does that can be seen from outside: it calls an operation with
  arguments, and it calls \<^verbatim>\<open>log_test\<close> with a method name, an input rendering and
  possibly an error.
\<close>

datatype event =
    Invoked string "pyval list"
  | Logged string string "py_exception option"

text \<open>
  The state of a run: the reporter of the \<^verbatim>\<open>Fuzzer\<close> object, the moment (it advances
  with every draw of the random source, every temporary name, every reading of the
  clock and every call of an operation), and the events so far.
\<close>

record world =
  reporter :: FuzzReporter
  tick :: nat
  trace :: "event list"

text \<open>\<^verbatim>\<open>Fuzzer.__init__\<close>, at the start of the process.\<close>

definition Fuzzer_init :: world where
  "Fuzzer_init = \<lparr>reporter = FuzzReporter_init, tick = 0, trace = []\<rparr>"

subsection \<open>Rendering with \<^verbatim>\<open>str\<close>\<close>

definition digit_char :: "nat \<Rightarrow> char" where
  "digit_char d = ''0123456789'' ! d"

fun str_nat :: "nat \<Rightarrow> string" where
  "str_nat n =
     (if n < 10 then [digit_char n] else str_nat (n div 10) @ [digit_char (n mod 10)])"

declare str_nat.simps [simp del]

definition str_int :: "int \<Rightarrow> string" where
  "str_int i = (if i < 0 then CHR ''-'' # str_nat (nat (- i)) else str_nat (nat i))"

fun py_str :: "env \<Rightarrow> pyval \<Rightarrow> string" where
  "py_str E PNone = ''None''"
| "py_str E (PInt i) = str_int i"
| "py_str E (PStr s) = s"
| "py_str E PEmptyList = ''[]''"
| "py_str E PEmptyDict = ''{}''"
| "py_str E (PDatetime d) = str_datetime E d"
| "py_str E (PObject s) = s"

subsection \<open>Random input generators\<close>

text \<open>
  \<^verbatim>\<open>random.randint(a, b)\<close> with \<open>a \<le> b\<close> (every call site passes constants),
  \<^verbatim>\<open>random.choice(seq)\<close> on a sequence that is not empty (every call site passes a list
  literal), and \<^verbatim>\<open>random.choices(population, k=k)\<close>, which draws nothing when \<open>k\<close> is
  not positive. Each returns its value and the next moment.
\<close>

definition randint :: "env \<Rightarrow> int \<Rightarrow> int \<Rightarrow> nat \<Rightarrow> int \<times> nat" where
  "randint E a b t = (a + int (entropy E t mod nat (b - a + 1)), Suc t)"

definition random_choice :: "env \<Rightarrow> 'a list \<Rightarrow> nat \<Rightarrow> 'a \<times> nat" where
  "random_choice E seq t = (seq ! (entropy E t mod length seq), Suc t)"

definition random_choices :: "env \<Rightarrow> 'a list \<Rightarrow> int \<Rightarrow> nat \<Rightarrow> 'a list \<times> nat" where
  "random_choices E population k t =
     (map (\<lambda>i. population ! (entropy E (t + i) mod length population)) [0..<nat k],
      t + nat k)"

text \<open>
  \<^verbatim>\<open>string.ascii_letters + string.digits + string.punctuation\<close>, in the order of the
  library.
\<close>

definition ascii_letters :: string where
  "ascii_letters = ''abcdefghijklmnopqrstuvwxyz'' @ ''ABCDEFGHIJKLMNOPQRSTUVWXYZ''"

definition digits :: string where
  "digits = ''0123456789''"

definition punctuation :: string where
  "punctuation = map char_of ([33..<48] @ [58..<65] @ [91..<97] @ [123..<127 :: nat])"

definition alphabet :: string where
  "alphabet = ascii_letters @ digits @ punctuation"

text \<open>\<^verbatim>\<open>Fuzzer.generate_random_string\<close>; \<open>None\<close> is the default \<^verbatim>\<open>length=None\<close>.\<close>

definition generate_random_string :: "env \<Rightarrow> int option \<Rightarrow> nat \<Rightarrow> string \<times> nat" where
  "generate_random_string E length_opt t =
     (case length_opt of
        None \<Rightarrow> (let (l, t1) = randint E 0 100 t in random_choices E alphabet l t1)
      | Some l \<Rightarrow> random_choices E alphabet l t)"

definition nl :: string where
  "nl = [CHR 0x0A]"

definition python_templates :: "string \<Rightarrow> string \<Rightarrow> string \<Rightarrow> string list" where
  "python_templates s1 s2 s3 =
     [''import random'' @ nl @ ''print('hello')'',
      ''def func():'' @ nl @ ''    pass'',
      ''class Test:'' @ nl @ ''    def __init__(self):'' @ nl @ ''        pass'',
      ''x = 1 + 2'',
      [],
      ''invalid python code @#$%'',
      ''def func('' @ nl @ ''    incomplete'',
      replicate 3 (CHR 0x27) @ ''multiline'' @ nl @ ''string'' @ nl @ replicate 3 (CHR 0x27),
      nl @ nl @ nl,
      s1,
      ''# '' @ s2,
      ''import '' @ s3]"

text \<open>
  \<^verbatim>\<open>Fuzzer.generate_random_python_code\<close>: the list literal calls
  \<^verbatim>\<open>generate_random_string\<close> three times, then one template is chosen.
\<close>

definition generate_random_python_code :: "env \<Rightarrow> nat \<Rightarrow> string \<times> nat" where
  "generate_random_python_code E t =
     (let (s1, t1) = generate_random_string E None t;
          (s2, t2) = generate_random_string E None t1;
          (s3, t3) = generate_random_string E None t2
      in random_choice E (python_templates s1 s2 s3) t3)"

text \<open>
  \<^verbatim>\<open>Fuzzer.create_temp_python_file\<close>. The file system is not part of the model: the
  content is written to a file that only the operation under test reads, and what that
  operation answers is a parameter. Creating the file is taken to succeed.
\<close>

definition create_temp_python_file :: "env \<Rightarrow> string \<Rightarrow> nat \<Rightarrow> string \<times> nat" where
  "create_temp_python_file E content t = (temp_file_name E t, Suc t)"

text \<open>\<^verbatim>\<open>Fuzzer.generate_random_date\<close>\<close>

definition generate_random_date :: "env \<Rightarrow> nat \<Rightarrow> datetime \<times> nat" where
  "generate_random_date E t =
     (let (random_days, t1) = randint E (- 1000) 1000 t
      in (Plus_days (Datetime 2020 1 1) random_days, t1))"

subsection \<open>Calling an operation and logging the outcome\<close>

text \<open>
  An exception that leaves a method of the \<^verbatim>\<open>Fuzzer\<close>, with the state in which it left
  the run: what was logged before stays logged.
\<close>

type_synonym abort = "py_exception \<times> world"

text \<open>
  A call of an operation under test: the operation answers at the current moment, the
  call is recorded, the moment advances.
\<close>

definition invoke ::
  "world \<Rightarrow> string \<Rightarrow> pyval list \<Rightarrow> (nat \<Rightarrow> outcome) \<Rightarrow> outcome \<times> world" where
  "invoke w name args target =
     (target (tick w), w\<lparr>tick := Suc (tick w), trace := trace w @ [Invoked name args]\<rparr>)"

text \<open>\<^verbatim>\<open>self.reporter.log_test(...)\<close> on the reporter of the run.\<close>

definition report_test ::
  "world \<Rightarrow> string \<Rightarrow> string \<Rightarrow> pyval \<Rightarrow> py_exception option \<Rightarrow> world" where
  "report_test w method_name input_data result error =
     w\<lparr>reporter := log_test (reporter w) method_name input_data result error,
       trace := trace w @ [Logged method_name input_data error]\<rparr>"

text \<open>
  The block
  \<^verbatim>\<open>
  try:
      result = operation(args)
      self.reporter.log_test(name, ok_label, result)
  except Exception as e:
      self.reporter.log_test(name, err_label, None, e)
  \<close>
  of lines 171-175, 186-190, 235-241, 256-260, 270-299, 317-321, 343-347 and 357-361.
  An exception that is not an instance of \<^verbatim>\<open>Exception\<close> passes through the handler;
  it leaves with the state of the run at that moment.
  The clean-up of the \<^verbatim>\<open>finally\<close> clauses swallows its own errors and touches neither
  the reporter nor the random source, so it leaves the state of the model as it is.
\<close>

definition guarded_call ::
  "world \<Rightarrow> string \<Rightarrow> pyval list \<Rightarrow> (nat \<Rightarrow> outcome) \<Rightarrow> (pyval \<Rightarrow> string) \<Rightarrow> string
     \<Rightarrow> abort + world" where
  "guarded_call w name args target ok_label err_label =
     (let (res, w1) = invoke w name args target in
      case res of
        Inr result \<Rightarrow> Inr (report_test w1 name (ok_label result) result None)
      | Inl e \<Rightarrow>
          if exc_is_Exception e
          then Inr (report_test w1 name err_label PNone (Some e))
          else Inl (e, w1))"

text \<open>
  \<^verbatim>\<open>for i in range(n)\<close> and \<^verbatim>\<open>for x in xs\<close> over a body that may raise: the first
  exception that leaves the body leaves the loop.
\<close>

fun for_range :: "nat \<Rightarrow> ('s \<Rightarrow> 'e + 's) \<Rightarrow> 's \<Rightarrow> 'e + 's" where
  "for_range 0 body s = Inr s"
| "for_range (Suc n) body s =
     (case body s of Inl e \<Rightarrow> Inl e | Inr s' \<Rightarrow> for_range n body s')"

fun for_each :: "'a list \<Rightarrow> ('a \<Rightarrow> 's \<Rightarrow> 'e + 's) \<Rightarrow> 's \<Rightarrow> 'e + 's" where
  "for_each [] body s = Inr s"
| "for_each (x # xs) body s =
     (case body x s of Inl e \<Rightarrow> Inl e | Inr s' \<Rightarrow> for_each xs body s')"

subsection \<open>Campaign 1: \<^verbatim>\<open>fuzz_getPythonParseObject\<close>\<close>

definition parse_random_iteration :: "env \<Rightarrow> world \<Rightarrow> abort + world" where
  "parse_random_iteration E w =
     (let (code, t1) = generate_random_python_code E (tick w);
          (temp_file, t2) = create_temp_python_file E code t1;
          label = ''file: '' @ temp_file @ '', content: '' @ take 50 code
      in guarded_call (w\<lparr>tick := t2\<rparr>) ''getPythonParseObject'' [PStr temp_file]
           (\<lambda>t. getPythonParseObject E t (PStr temp_file)) (\<lambda>result. label) label)"

definition parse_fake_iteration :: "env \<Rightarrow> world \<Rightarrow> abort + world" where
  "parse_fake_iteration E w =
     (let (r, t1) = generate_random_string E None (tick w);
          fake_file = ''/nonexistent/'' @ r @ ''.py'';
          label = ''file: '' @ fake_file
      in guarded_call (w\<lparr>tick := t1\<rparr>) ''getPythonParseObject'' [PStr fake_file]
           (\<lambda>t. getPythonParseObject E t (PStr fake_file)) (\<lambda>result. label) label)"

definition fuzz_getPythonParseObject :: "env \<Rightarrow> int \<Rightarrow> world \<Rightarrow> abort + world" where
  "fuzz_getPythonParseObject E iterations w =
     (case for_range (nat iterations) (parse_random_iteration E) w of
        Inl e \<Rightarrow> Inl e
      | Inr w1 \<Rightarrow> for_range 5 (parse_fake_iteration E) w1)"

subsection \<open>Campaign 2: \<^verbatim>\<open>fuzz_checkLoggingPerData\<close>\<close>

text \<open>
  The local variable \<^verbatim>\<open>name_to_track\<close> is assigned inside the \<^verbatim>\<open>try\<close> block, after the
  call of the parser, and read by the handler. It is carried through the loop as an
  option: \<open>None\<close> while no iteration has assigned it. Reading it then raises
  \<^verbatim>\<open>UnboundLocalError\<close> inside the handler, and that exception leaves the method.
\<close>

definition UnboundLocalError :: "string \<Rightarrow> py_exception" where
  "UnboundLocalError name =
     builtin_error ''UnboundLocalError''
       (''cannot access local variable '' @ [CHR 0x27] @ name @ [CHR 0x27] @
        '' where it is not associated with a value'')"

definition logging_templates :: "string \<Rightarrow> string list" where
  "logging_templates s =
     [''import logging'' @ nl @ ''logging.getLogger('test')'',
      ''logger.info(test_data)'',
      ''import tensorflow as tf'' @ nl @ ''tf.logging.info('message')'',
      s,
      [],
      ''# no logging here'']"

definition logging_label :: "env \<Rightarrow> pyval \<Rightarrow> string \<Rightarrow> string" where
  "logging_label E name_to_track code =
     ''name: '' @ py_str E name_to_track @ '', code: '' @ take 50 code"

text \<open>The handler of lines 221-222.\<close>

definition logging_handler ::
  "env \<Rightarrow> world \<Rightarrow> pyval option \<Rightarrow> string \<Rightarrow> py_exception
     \<Rightarrow> abort + world \<times> pyval option" where
  "logging_handler E w name_to_track code e =
     (if exc_is_Exception e then
        (case name_to_track of
           None \<Rightarrow> Inl (UnboundLocalError ''name_to_track'', w)
         | Some name \<Rightarrow>
             Inr (report_test w ''checkLoggingPerData'' (logging_label E name code)
                    PNone (Some e), Some name))
      else Inl (e, w))"

definition logging_iteration ::
  "env \<Rightarrow> world \<times> pyval option \<Rightarrow> abort + world \<times> pyval option" where
  "logging_iteration E s =
     (let (w, name_to_track) = s;
          (r, t1) = generate_random_python_code E (tick w);
          (code, t2) = random_choice E (logging_templates r) t1;
          (temp_file, t3) = create_temp_python_file E code t2;
          (res, w1) = invoke (w\<lparr>tick := t3\<rparr>) ''getPythonParseObject'' [PStr temp_file]
                        (\<lambda>t. getPythonParseObject E t (PStr temp_file))
      in case res of
           Inl e \<Rightarrow> logging_handler E w1 name_to_track code e
         | Inr tree \<Rightarrow>
             (let (r10, t4) = generate_random_string E (Some 10) (tick w1);
                  (name, t5) =
                     random_choice E
                       [PStr ''data'', PStr ''test_var'', PStr r10, PStr [], PNone, PInt 123] t4;
                  (res2, w2) = invoke (w1\<lparr>tick := t5\<rparr>) ''checkLoggingPerData'' [tree, name]
                                 (\<lambda>t. checkLoggingPerData E t tree name)
              in case res2 of
                   Inl e \<Rightarrow> logging_handler E w2 (Some name) code e
                 | Inr result \<Rightarrow>
                     Inr (report_test w2 ''checkLoggingPerData'' (logging_label E name code)
                            result None, Some name)))"

definition fuzz_checkLoggingPerData :: "env \<Rightarrow> int \<Rightarrow> world \<Rightarrow> abort + world" where
  "fuzz_checkLoggingPerData E iterations w =
     (case for_range (nat iterations) (logging_iteration E) (w, None) of
        Inl e \<Rightarrow> Inl e
      | Inr (w1, name_to_track) \<Rightarrow> Inr w1)"

subsection \<open>Campaign 3: \<^verbatim>\<open>fuzz_days_between\<close>\<close>

definition days_label :: "env \<Rightarrow> pyval \<Rightarrow> pyval \<Rightarrow> string" where
  "days_label E d1 d2 = ''d1: '' @ py_str E d1 @ '', d2: '' @ py_str E d2"

definition days_call :: "env \<Rightarrow> pyval \<times> pyval \<Rightarrow> world \<Rightarrow> abort + world" where
  "days_call E p w =
     (let (d1, d2) = p
      in guarded_call w ''days_between'' [d1, d2] (\<lambda>t. days_between E t d1 d2)
           (\<lambda>result. days_label E d1 d2) (days_label E d1 d2))"

text \<open>
  The random iteration: both dates are drawn inside the \<^verbatim>\<open>try\<close> block, before the
  call; drawing them does not raise, so they are bound when the handler reads them.
\<close>

definition days_random_iteration :: "env \<Rightarrow> world \<Rightarrow> abort + world" where
  "days_random_iteration E w =
     (let (d1, t1) = generate_random_date E (tick w);
          (d2, t2) = generate_random_date E t1
      in days_call E (PDatetime d1, PDatetime d2) (w\<lparr>tick := t2\<rparr>))"

text \<open>
  The list \<^verbatim>\<open>edge_cases\<close> is built before its loop; building it reads the clock four
  times.
\<close>

definition days_edge_cases :: "nat \<Rightarrow> (pyval \<times> pyval) list \<times> nat" where
  "days_edge_cases t =
     ([(PNone, PNone),
       (PDatetime (Now t), PNone),
       (PNone, PDatetime (Now (t + 1))),
       (PStr ''2020-01-01'', PStr ''2021-01-01''),
       (PInt 123, PInt 456),
       (PEmptyList, PEmptyDict),
       (PDatetime (Datetime 1900 1 1), PDatetime (Datetime 2100 12 31)),
       (PDatetime (Now (t + 2)), PDatetime (Now (t + 3)))],
      t + 4)"

definition fuzz_days_between :: "env \<Rightarrow> int \<Rightarrow> world \<Rightarrow> abort + world" where
  "fuzz_days_between E iterations w =
     (case for_range (nat iterations) (days_random_iteration E) w of
        Inl e \<Rightarrow> Inl e
      | Inr w1 \<Rightarrow>
          (let (edge_cases, t1) = days_edge_cases (tick w1)
           in for_each edge_cases (days_call E) (w1\<lparr>tick := t1\<rparr>)))"

subsection \<open>Campaign 4: \<^verbatim>\<open>fuzz_getPythonFileCount\<close>\<close>

text \<open>
  Filling the temporary directory. Writing a file is taken to succeed; its only trace in
  the model is what it draws from the random source: the content of each source file,
  the extension and the content of each other file, nothing for a notebook.
\<close>

fun write_py_files :: "env \<Rightarrow> nat \<Rightarrow> nat \<Rightarrow> nat" where
  "write_py_files E 0 t = t"
| "write_py_files E (Suc n) t = write_py_files E n (snd (generate_random_python_code E t))"

fun write_other_files :: "env \<Rightarrow> nat \<Rightarrow> nat \<Rightarrow> nat" where
  "write_other_files E 0 t = t"
| "write_other_files E (Suc n) t =
     (let (ext, t1) = random_choice E [''.txt'', ''.md'', ''.json'', ''.yml''] t
      in write_other_files E n (snd (generate_random_string E None t1)))"

text \<open>
  Lines 272-291: the three counts \<^verbatim>\<open>num_py_files\<close>, \<^verbatim>\<open>num_other_files\<close> and
  \<^verbatim>\<open>num_ipynb\<close>, with the moment after the directory is filled.
\<close>

definition populate_directory :: "env \<Rightarrow> nat \<Rightarrow> (int \<times> int \<times> int) \<times> nat" where
  "populate_directory E t =
     (let (num_py_files, t1) = randint E 0 10 t;
          t2 = write_py_files E (nat num_py_files) t1;
          (num_other_files, t3) = randint E 0 5 t2;
          t4 = write_other_files E (nat num_other_files) t3;
          (num_ipynb, t5) = randint E 0 3 t4
      in ((num_py_files, num_other_files, num_ipynb), t5))"

text \<open>The rendering of lines 295-297, with \<^verbatim>\<open>expected = num_py_files + num_ipynb\<close>.\<close>

definition count_label :: "env \<Rightarrow> string \<Rightarrow> int \<Rightarrow> int \<Rightarrow> pyval \<Rightarrow> string" where
  "count_label E temp_dir num_py_files num_ipynb result =
     (let expected = num_py_files + num_ipynb
      in ''dir: '' @ temp_dir @ '', py_files: '' @ str_int num_py_files @
         '', ipynb: '' @ str_int num_ipynb @ '', expected: '' @ str_int expected @
         '', got: '' @ py_str E result)"

definition count_random_iteration :: "env \<Rightarrow> world \<Rightarrow> abort + world" where
  "count_random_iteration E w =
     (let temp_dir = temp_dir_name E (tick w);
          ((num_py_files, num_other_files, num_ipynb), t1) =
             populate_directory E (Suc (tick w))
      in guarded_call (w\<lparr>tick := t1\<rparr>) ''getPythonFileCount'' [PStr temp_dir]
           (\<lambda>t. getPythonFileCount E t (PStr temp_dir))
           (count_label E temp_dir num_py_files num_ipynb)
           (''dir: '' @ temp_dir))"

text \<open>The list \<^verbatim>\<open>invalid_dirs\<close>; building it draws one random string.\<close>

definition invalid_dirs :: "env \<Rightarrow> nat \<Rightarrow> pyval list \<times> nat" where
  "invalid_dirs E t =
     (let (r, t1) = generate_random_string E None t
      in ([PStr ''/nonexistent/directory'',
           PStr [],
           PNone,
           PStr r,
           PStr ''../../../etc'',
           PStr ''/dev/null''],
          t1))"

definition count_call :: "env \<Rightarrow> pyval \<Rightarrow> world \<Rightarrow> abort + world" where
  "count_call E dir_path w =
     guarded_call w ''getPythonFileCount'' [dir_path] (\<lambda>t. getPythonFileCount E t dir_path)
       (\<lambda>result. ''dir: '' @ py_str E dir_path) (''dir: '' @ py_str E dir_path)"

definition fuzz_getPythonFileCount :: "env \<Rightarrow> int \<Rightarrow> world \<Rightarrow> abort + world" where
  "fuzz_getPythonFileCount E iterations w =
     (case for_range (nat iterations) (count_random_iteration E) w of
        Inl e \<Rightarrow> Inl e
      | Inr w1 \<Rightarrow>
          (let (dirs, t1) = invalid_dirs E (tick w1)
           in for_each dirs (count_call E) (w1\<lparr>tick := t1\<rparr>)))"

subsection \<open>Campaign 5: \<^verbatim>\<open>fuzz_getDataLoadCount\<close>\<close>

definition data_load_templates :: "string \<Rightarrow> string list" where
  "data_load_templates s =
     [''import torch'' @ nl @ ''torch.load('file.pth')'',
      ''import pickle'' @ nl @ ''pickle.load(open('file.pkl', 'rb'))'',
      ''import json'' @ nl @ ''json.load(open('file.json'))'',
      ''import pandas as pd'' @ nl @ ''pd.read_csv('data.csv')'',
      ''from PIL import Image'' @ nl @ ''Image.open('image.jpg')'',
      s,
      [],
      ''# no data loading here'',
      ''import numpy as np'' @ nl @ ''np.load('data.npy')'']"

definition load_random_iteration :: "env \<Rightarrow> world \<Rightarrow> abort + world" where
  "load_random_iteration E w =
     (let (r, t1) = generate_random_python_code E (tick w);
          (code, t2) = random_choice E (data_load_templates r) t1;
          (temp_file, t3) = create_temp_python_file E code t2;
          label = ''file: '' @ temp_file @ '', code: '' @ take 50 code
      in guarded_call (w\<lparr>tick := t3\<rparr>) ''getDataLoadCount'' [PStr temp_file]
           (\<lambda>t. getDataLoadCount E t (PStr temp_file)) (\<lambda>result. label) label)"

definition load_fake_iteration :: "env \<Rightarrow> world \<Rightarrow> abort + world" where
  "load_fake_iteration E w =
     (let (r, t1) = generate_random_string E None (tick w);
          fake_file = ''/nonexistent/'' @ r @ ''.py'';
          label = ''file: '' @ fake_file
      in guarded_call (w\<lparr>tick := t1\<rparr>) ''getDataLoadCount'' [PStr fake_file]
           (\<lambda>t. getDataLoadCount E t (PStr fake_file)) (\<lambda>result. label) label)"

definition fuzz_getDataLoadCount :: "env \<Rightarrow> int \<Rightarrow> world \<Rightarrow> abort + world" where
  "fuzz_getDataLoadCount E iterations w =
     (case for_range (nat iterations) (load_random_iteration E) w of
        Inl e \<Rightarrow> Inl e
      | Inr w1 \<Rightarrow> for_range 5 (load_fake_iteration E) w1)"

subsection \<open>\<^verbatim>\<open>run_all_fuzzing\<close>\<close>

text \<open>The five campaigns in order, without the report.\<close>

definition run_campaigns :: "env \<Rightarrow> int \<Rightarrow> world \<Rightarrow> abort + world" where
  "run_campaigns E iterations w =
     (case fuzz_getPythonParseObject E iterations w of Inl e \<Rightarrow> Inl e | Inr w1 \<Rightarrow>
     (case fuzz_checkLoggingPerData E iterations w1 of Inl e \<Rightarrow> Inl e | Inr w2 \<Rightarrow>
     (case fuzz_days_between E iterations w2 of Inl e \<Rightarrow> Inl e | Inr w3 \<Rightarrow>
     (case fuzz_getPythonFileCount E iterations w3 of Inl e \<Rightarrow> Inl e | Inr w4 \<Rightarrow>
      fuzz_getDataLoadCount E iterations w4))))"

text \<open>
  \<^verbatim>\<open>Fuzzer.run_all_fuzzing\<close>: the campaigns, then the report. Writing the report file is
  taken to succeed.
\<close>

definition run_all_fuzzing ::
  "env \<Rightarrow> int \<Rightarrow> world \<Rightarrow> abort + world \<times> fuzz_report" where
  "run_all_fuzzing E iterations w =
     (case run_campaigns E iterations w of
        Inl e \<Rightarrow> Inl e
      | Inr w1 \<Rightarrow>
          (case generate_report (reporter w1) of
             Inl e \<Rightarrow> Inl (e, w1)
           | Inr rep \<Rightarrow> Inr (w1, rep)))"

subsection \<open>\<^verbatim>\<open>main\<close> and the import guard\<close>

text \<open>
  A command-line argument is a string of Unicode code points, of any size: a list of
  natural numbers. \<open>ustr\<close> reads a string of the model as such a list.
\<close>

type_synonym ustring = "nat list"

definition ustr :: "string \<Rightarrow> ustring" where
  "ustr s = map of_char s"

text \<open>
  What \<^verbatim>\<open>int\<close> takes from the interpreter: the bound on the number of digits of a decimal
  string (\<^verbatim>\<open>sys.get_int_max_str_digits()\<close>, 4300 unless configured, 0 when there is no
  bound, as in interpreters older than the bound), and the two tables of the Unicode
  database that it consults for the code points from 127 on: which are white space, and
  which are decimal digits, with their value.
\<close>

record interpreter =
  int_max_str_digits :: nat
  unicode_isspace :: "nat \<Rightarrow> bool"
  unicode_todecimal :: "nat \<Rightarrow> nat option"

text \<open>
  \<^verbatim>\<open>int(s)\<close> on a \<^verbatim>\<open>str\<close>, as CPython computes it. A string that is not pure ASCII is
  first rewritten: a code point below 127 stays, white space becomes a blank, a decimal
  digit becomes its ASCII digit, and at the first other code point the string ends with
  a question mark. A pure ASCII string is taken as it is. Then: ASCII white space
  (codes 9 to 13 and 32) around, an optional sign, decimal digits, where single
  underscores may stand between digits. Anything else raises \<^verbatim>\<open>ValueError\<close>, and so does
  a literal with more than 640 digits that exceeds the bound on digits. (The text of
  the message is abridged: the interpreter appends the argument or the number of digits.
  Nothing in the harness reads it.)
\<close>

definition ValueError :: "string \<Rightarrow> py_exception" where
  "ValueError msg = builtin_error ''ValueError'' msg"

definition invalid_literal :: py_exception where
  "invalid_literal = ValueError ''invalid literal for int() with base 10''"

definition exceeds_limit :: py_exception where
  "exceeds_limit = ValueError ''Exceeds the limit for integer string conversion''"

fun transform_chars :: "interpreter \<Rightarrow> ustring \<Rightarrow> ustring" where
  "transform_chars I [] = []"
| "transform_chars I (c # cs) =
     (if c < 127 then c # transform_chars I cs
      else if unicode_isspace I c then 32 # transform_chars I cs
      else (case unicode_todecimal I c of
              None \<Rightarrow> [63]
            | Some d \<Rightarrow> (48 + d) # transform_chars I cs))"

definition transform_decimal_and_space :: "interpreter \<Rightarrow> ustring \<Rightarrow> ustring" where
  "transform_decimal_and_space I s =
     (if list_all (\<lambda>c. c < 128) s then s else transform_chars I s)"

definition is_space :: "nat \<Rightarrow> bool" where
  "is_space c = ((9 \<le> c \<and> c \<le> 13) \<or> c = 32)"

definition is_digit :: "nat \<Rightarrow> bool" where
  "is_digit c = (48 \<le> c \<and> c \<le> 57)"

definition digit_value :: "nat \<Rightarrow> nat" where
  "digit_value c = c - 48"

definition strip :: "ustring \<Rightarrow> ustring" where
  "strip s = rev (dropWhile is_space (rev (dropWhile is_space s)))"

text \<open>
  The digits after the first one, with the value read so far; 95 is the underscore.
\<close>

fun more_digits :: "nat \<Rightarrow> ustring \<Rightarrow> nat option" where
  "more_digits acc [] = Some acc"
| "more_digits acc [c] = (if is_digit c then Some (acc * 10 + digit_value c) else None)"
| "more_digits acc (c # d # cs) =
     (if is_digit c then more_digits (acc * 10 + digit_value c) (d # cs)
      else if c = 95 \<and> is_digit d then more_digits (acc * 10 + digit_value d) cs
      else None)"

definition unsigned_literal :: "ustring \<Rightarrow> nat option" where
  "unsigned_literal s =
     (case s of
        [] \<Rightarrow> None
      | c # cs \<Rightarrow> if is_digit c then more_digits (digit_value c) cs else None)"

text \<open>
  The bound on digits: the literal has more than 640 digits, a bound is set, and the
  literal has more digits than the bound.
\<close>

definition too_many_digits :: "interpreter \<Rightarrow> ustring \<Rightarrow> bool" where
  "too_many_digits I literal =
     (let n = length (filter is_digit literal)
      in 640 < n \<and> 0 < int_max_str_digits I \<and> int_max_str_digits I < n)"

text \<open>
  45 is the minus sign, 43 the plus sign. After the sign the interpreter scans the
  longest run of digits and underscores, rejects it when the underscores are misplaced
  or when there is no digit, then applies the bound on digits, and only then rejects
  what follows the run.
\<close>

definition py_int :: "interpreter \<Rightarrow> ustring \<Rightarrow> py_exception + int" where
  "py_int I s =
     (let t = strip (transform_decimal_and_space I s);
          (negative, body) =
             (case t of
                [] \<Rightarrow> (False, t)
              | c # cs \<Rightarrow>
                  if c = 45 then (True, cs)
                  else if c = 43 then (False, cs)
                  else (False, t));
          literal = takeWhile (\<lambda>c. is_digit c \<or> c = 95) body;
          rest = dropWhile (\<lambda>c. is_digit c \<or> c = 95) body
      in case unsigned_literal literal of
           None \<Rightarrow> Inl invalid_literal
         | Some n \<Rightarrow>
             if too_many_digits I literal then Inl exceeds_limit
             else if rest \<noteq> [] then Inl invalid_literal
             else Inr (if negative then - int n else int n))"

text \<open>
  Lines 392-398: the iteration count and the lines printed while the arguments are
  handled. The handler is \<^verbatim>\<open>except ValueError\<close>; \<^verbatim>\<open>int\<close> of a string raises nothing else.
\<close>

definition parse_iterations ::
  "interpreter \<Rightarrow> ustring list \<Rightarrow> py_exception + int \<times> string list" where
  "parse_iterations I argv =
     (if length argv > 1 then
        (case py_int I (argv ! 1) of
           Inr n \<Rightarrow> Inr (n, [''Using custom iteration count: '' @ str_int n])
         | Inl e \<Rightarrow>
             if exc_type e = ''ValueError''
             then Inr (20, [''Invalid iteration count, using default: 20''])
             else Inl e)
      else Inr (20, []))"

text \<open>
  How the process ends: with an exit status, or on an exception that nothing caught and
  that is not a \<^verbatim>\<open>SystemExit\<close> (the interpreter prints the traceback; the status it then
  gives is not 0).
\<close>

datatype process_end = Exit int | Uncaught py_exception

text \<open>
  An exception that leaves the script. \<^verbatim>\<open>sys.exit(status)\<close> raises \<^verbatim>\<open>SystemExit\<close>, which
  nothing in the script catches outside the handlers of \<^verbatim>\<open>Exception\<close>: whether the script
  raised it or an operation under test did, the interpreter ends the process with its
  status.
\<close>

definition interpreter_end :: "py_exception \<Rightarrow> process_end" where
  "interpreter_end e = (case exc_exit_status e of Some status \<Rightarrow> Exit status | None \<Rightarrow> Uncaught e)"

text \<open>
  \<^verbatim>\<open>main\<close>: how the process ends, the state of the run at that moment, and the lines
  printed while the arguments were handled. (Were the argument handling to raise, no
  \<^verbatim>\<open>Fuzzer\<close> would exist yet; the initial state stands in.)
\<close>

definition main ::
  "interpreter \<Rightarrow> env \<Rightarrow> ustring list \<Rightarrow> process_end \<times> world \<times> string list" where
  "main I E argv =
     (case parse_iterations I argv of
        Inl e \<Rightarrow> (interpreter_end e, Fuzzer_init, [])
      | Inr (iterations, out) \<Rightarrow>
          (case run_all_fuzzing E iterations Fuzzer_init of
             Inl (e, w) \<Rightarrow> (interpreter_end e, w, out)
           | Inr (w, rep) \<Rightarrow>
               if crash_count (reporter w) > 0 then (Exit 1, w, out) else (Exit 0, w, out)))"

text \<open>
  The script as a whole. The imports of lines 24-27 either succeed, or raise
  \<^verbatim>\<open>ImportError\<close> (the guard prints and calls \<^verbatim>\<open>sys.exit(1)\<close>), or raise something else,
  which the guard does not catch. Only when they succeed is \<^verbatim>\<open>main\<close> called; otherwise
  no \<^verbatim>\<open>Fuzzer\<close> is ever created.
\<close>

datatype import_outcome =
    Imported
  | Import_ImportError py_exception
  | Import_other py_exception

definition fuzz_script ::
  "import_outcome \<Rightarrow> interpreter \<Rightarrow> env \<Rightarrow> ustring list \<Rightarrow> process_end \<times> world option" where
  "fuzz_script imp I E argv =
     (case imp of
        Import_ImportError e \<Rightarrow> (Exit 1, None)
      | Import_other e \<Rightarrow> (interpreter_end e, None)
      | Imported \<Rightarrow> (let (status, w, out) = main I E argv in (status, Some w)))"

subsection \<open>Vocabulary of the properties\<close>

text \<open>The second reporter is the first one after \<open>k\<close> more calls of \<^verbatim>\<open>log_test\<close>.\<close>

definition logged_more :: "FuzzReporter \<Rightarrow> nat \<Rightarrow> FuzzReporter \<Rightarrow> bool" where
  "logged_more r k r' = (\<exists>cs. length cs = k \<and> r' = log_calls r cs)"

text \<open>
  A list of events is the orderly processing of a list of calls when it consists, for
  each call in order, of one invocation of that operation with those arguments followed
  by one \<^verbatim>\<open>log_test\<close> under the same method name, and of nothing else.
\<close>

type_synonym call = "string \<times> pyval list"

fun paired :: "call list \<Rightarrow> event list \<Rightarrow> bool" where
  "paired [] evs = (evs = [])"
| "paired ((name, args) # cs) (Invoked n a # Logged m i e # evs) =
     (n = name \<and> a = args \<and> m = name \<and> paired cs evs)"
| "paired (c # cs) evs = False"

text \<open>
  The edge-case corpora as calls: a nonexistent path built around a random string, the
  eight pairs of \<^verbatim>\<open>edge_cases\<close>, the six entries of \<^verbatim>\<open>invalid_dirs\<close>.
\<close>

definition fake_file_call :: "string \<Rightarrow> string \<Rightarrow> call" where
  "fake_file_call name r = (name, [PStr (''/nonexistent/'' @ r @ ''.py'')])"

definition days_corpus :: "nat \<Rightarrow> call list" where
  "days_corpus t = map (\<lambda>(d1, d2). (''days_between'', [d1, d2])) (fst (days_edge_cases t))"

definition dirs_corpus :: "env \<Rightarrow> nat \<Rightarrow> call list" where
  "dirs_corpus E t = map (\<lambda>d. (''getPythonFileCount'', [d])) (fst (invalid_dirs E t))"

text \<open>
  Every exception that an operation under test raises is an instance of \<^verbatim>\<open>Exception\<close>
  (as all errors are; \<^verbatim>\<open>KeyboardInterrupt\<close> and \<^verbatim>\<open>SystemExit\<close> are not).
\<close>

definition catchable :: "env \<Rightarrow> bool" where
  "catchable E =
     (\<forall>t a b e.
        (getPythonParseObject E t a = Inl e \<longrightarrow> exc_is_Exception e) \<and>
        (checkLoggingPerData E t a b = Inl e \<longrightarrow> exc_is_Exception e) \<and>
        (days_between E t a b = Inl e \<longrightarrow> exc_is_Exception e) \<and>
        (getPythonFileCount E t a = Inl e \<longrightarrow> exc_is_Exception e) \<and>
        (getDataLoadCount E t a = Inl e \<longrightarrow> exc_is_Exception e))"

text \<open>
  A code point that can stand in a decimal literal or around it: a digit, ASCII white
  space, a sign or an underscore. A code point is foreign to a decimal literal when it
  is below 127 and is none of these, or is 127 or more and the Unicode database knows it
  neither as white space nor as a decimal digit.
\<close>

definition literal_char :: "nat \<Rightarrow> bool" where
  "literal_char c = (is_digit c \<or> is_space c \<or> c = 43 \<or> c = 45 \<or> c = 95)"

definition foreign :: "interpreter \<Rightarrow> nat \<Rightarrow> bool" where
  "foreign I c =
     (if c < 127 then \<not> literal_char c
      else \<not> unicode_isspace I c \<and> unicode_todecimal I c = None)"

text \<open>The parser returns at every call.\<close>

definition parser_returns :: "env \<Rightarrow> bool" where
  "parser_returns E = (\<forall>t p. \<exists>v. getPythonParseObject E t p = Inr v)"

subsection \<open>Concrete inputs\<close>

text \<open>
  An environment in which every operation returns, the random source always yields 0,
  and temporary names are numbered by the moment.
\<close>

definition quiet_env :: env where
  "quiet_env =
     \<lparr>entropy = (\<lambda>t. 0),
      temp_file_name = (\<lambda>t. ''/tmp/tmp'' @ str_nat t @ ''.py''),
      temp_dir_name = (\<lambda>t. ''/tmp/tmp'' @ str_nat t),
      str_datetime = (\<lambda>d. ''2020-01-01 00:00:00''),
      getPythonParseObject = (\<lambda>t path. Inr (PObject ''<ast.Module object>'')),
      checkLoggingPerData = (\<lambda>t tree name. Inr (PInt 0)),
      days_between = (\<lambda>t d1 d2. Inr (PInt 0)),
      getPythonFileCount = (\<lambda>t path. Inr (PInt 0)),
      getDataLoadCount = (\<lambda>t path. Inr (PInt 0))\<rparr>"

text \<open>The same, with a parser that fails on a resource error at every call.\<close>

definition OSError :: py_exception where
  "OSError = builtin_error ''OSError'' ''[Errno 24] Too many open files''"

definition failing_parser_env :: env where
  "failing_parser_env = quiet_env\<lparr>getPythonParseObject := (\<lambda>t path. Inl OSError)\<rparr>"

text \<open>The same, with a parser call that is interrupted from the keyboard.\<close>

definition KeyboardInterrupt :: py_exception where
  "KeyboardInterrupt =
     \<lparr>exc_type = ''KeyboardInterrupt'', exc_msg = [], exc_traceback = [],
      exc_is_Exception = False, exc_truthy = True, exc_exit_status = None\<rparr>"

definition interrupted_env :: env where
  "interrupted_env = quiet_env\<lparr>getPythonParseObject := (\<lambda>t path. Inl KeyboardInterrupt)\<rparr>"

text \<open>
  The same, with a parser that fails on a resource error at its first call and calls
  \<^verbatim>\<open>sys.exit(0)\<close> at the next one.
\<close>

definition SystemExit :: "int \<Rightarrow> py_exception" where
  "SystemExit status =
     \<lparr>exc_type = ''SystemExit'', exc_msg = str_int status, exc_traceback = [],
      exc_is_Exception = False, exc_truthy = True, exc_exit_status = Some status\<rparr>"

definition exiting_env :: env where
  "exiting_env =
     quiet_env\<lparr>getPythonParseObject :=
                 (\<lambda>t path. if t < 2 then Inl OSError else Inl (SystemExit 0))\<rparr>"

text \<open>
  An interpreter with the default bound on digits, and with the white space and the
  decimal digits of the Unicode database as far as the examples need them: the
  line-break and no-break spaces of Latin-1, the Arabic-Indic digits and the full-width
  digits.
\<close>

definition cpython :: interpreter where
  "cpython =
     \<lparr>int_max_str_digits = 4300,
      unicode_isspace = (\<lambda>c. c = 133 \<or> c = 160),
      unicode_todecimal =
        (\<lambda>c. if 1632 \<le> c \<and> c \<le> 1641 then Some (c - 1632)
             else if 65296 \<le> c \<and> c \<le> 65305 then Some (c - 65296)
             else None)\<rparr>"

text \<open>
  An environment whose random source makes the first directory of campaign 4 hold 3
  source files, 2 other files and 1 notebook, and whose counter answers 7.
\<close>

definition three_two_one_env :: env where
  "three_two_one_env =
     quiet_env\<lparr>entropy :=
                 (\<lambda>t. if t = 1 then 3 else if t = 14 then 2 else if t = 19 then 1 else 0),
               getPythonFileCount := (\<lambda>t path. Inr (PInt 7))\<rparr>"

text \<open>
  Two logged outcomes: a failure whose input rendering has 150 characters, then a
  success.
\<close>

definition example_calls :: "log_call list" where
  "example_calls =
     [(''days_between'', replicate 150 (CHR ''x''), PNone,
       Some (builtin_error ''TypeError'' ''unsupported operand'')),
      (''days_between'', ''d1: 1, d2: 2'', PInt 1, None)]"

section \<open>Properties of the reporter\<close>

lemma log_test_test_count: "test_count (log_test r m i res err) = test_count r + 1"
  by (simp add: log_test_def Let_def split: option.splits)

lemma log_test_crash_count:
  "crash_count (log_test r m i res err) = crash_count r + (if error_is_true err then 1 else 0)"
  by (simp add: log_test_def error_is_true_def Let_def split: option.splits)

lemma log_test_bugs_found:
  "bugs_found (log_test r m i res err) =
     bugs_found r @
     (case err of None \<Rightarrow> [] | Some e \<Rightarrow>
        if exc_truthy e then
        [\<lparr>bug_method = m, bug_input = take 100 i, bug_error_type = exc_type e,
          bug_error_msg = exc_msg e, bug_traceback = exc_traceback e\<rparr>] else [])"
  by (simp add: log_test_def Let_def split: option.splits)

lemma log_calls_mono:
  "test_count r \<le> test_count (log_calls r cs) \<and> crash_count r \<le> crash_count (log_calls r cs)"
proof (induction cs arbitrary: r)
  case Nil
  show ?case by simp
next
  case (Cons c cs)
  obtain m i res err where c: "c = (m, i, res, err)" by (cases c) auto
  have "test_count r \<le> test_count (log_test r m i res err)"
    and "crash_count r \<le> crash_count (log_test r m i res err)"
    by (simp_all add: log_test_test_count log_test_crash_count)
  with Cons.IH [of "log_test r m i res err"] show ?case
    unfolding c by auto
qed

lemma log_calls_test_count: "test_count (log_calls r cs) = test_count r + int (length cs)"
proof (induction cs arbitrary: r)
  case Nil
  show ?case by simp
next
  case (Cons c cs)
  obtain m i res err where c: "c = (m, i, res, err)" by (cases c) auto
  show ?case unfolding c by (simp add: Cons.IH log_test_test_count)
qed

lemma log_calls_bounds:
  "0 \<le> crash_count r \<Longrightarrow> crash_count r \<le> test_count r \<Longrightarrow>
   0 \<le> crash_count (log_calls r cs) \<and> crash_count (log_calls r cs) \<le> test_count (log_calls r cs)"
proof (induction cs arbitrary: r)
  case Nil
  then show ?case by simp
next
  case (Cons c cs)
  obtain m i res err where c: "c = (m, i, res, err)" by (cases c) auto
  have "0 \<le> crash_count (log_test r m i res err)"
    and "crash_count (log_test r m i res err) \<le> test_count (log_test r m i res err)"
    using Cons.prems by (simp_all add: log_test_test_count log_test_crash_count)
  then show ?case unfolding c by (simp add: Cons.IH)
qed

text \<open>
  C3: one call of \<^verbatim>\<open>log_test\<close> adds exactly one to \<^verbatim>\<open>test_count\<close>, and adds one to
  \<^verbatim>\<open>crash_count\<close> when the error is true and nothing otherwise; over any sequence of calls
  neither counter decreases; and after any sequence of calls on a fresh reporter
  \<open>0 \<le> crash_count \<le> test_count\<close>, with \<^verbatim>\<open>test_count\<close> the number of calls.
\<close>

theorem log_test_counters:
  "test_count (log_test r m i res err) = test_count r + 1 \<and>
   crash_count (log_test r m i res err) = crash_count r + (if error_is_true err then 1 else 0) \<and>
   test_count r \<le> test_count (log_calls r cs) \<and>
   crash_count r \<le> crash_count (log_calls r cs) \<and>
   test_count (log_calls FuzzReporter_init cs) = int (length cs) \<and>
   0 \<le> crash_count (log_calls FuzzReporter_init cs) \<and>
   crash_count (log_calls FuzzReporter_init cs) \<le> test_count (log_calls FuzzReporter_init cs)"
proof -
  have init: "0 \<le> crash_count FuzzReporter_init"
    "crash_count FuzzReporter_init \<le> test_count FuzzReporter_init"
    "test_count FuzzReporter_init = 0"
    by (simp_all add: FuzzReporter_init_def)
  show ?thesis
    using log_calls_bounds [OF init(1,2), of cs] log_calls_mono [of r cs]
      log_calls_test_count [of FuzzReporter_init cs] init(3)
    by (simp add: log_test_test_count log_test_crash_count)
qed

theorem log_test_counters_witness:
  "test_count (log_calls FuzzReporter_init example_calls) = 2 \<and>
   crash_count (log_calls FuzzReporter_init example_calls) = 1"
  using log_test_counters [of FuzzReporter_init "[]" "[]" PNone None example_calls]
  by (simp add: example_calls_def FuzzReporter_init_def log_test_def builtin_error_def)

lemma log_calls_bugs:
  "crash_count r = int (length (bugs_found r)) \<Longrightarrow>
   \<forall>b \<in> set (bugs_found r). length (bug_input b) \<le> 100 \<Longrightarrow>
   crash_count (log_calls r cs) = int (length (bugs_found (log_calls r cs))) \<and>
   (\<forall>b \<in> set (bugs_found (log_calls r cs)). length (bug_input b) \<le> 100)"
proof (induction cs arbitrary: r)
  case Nil
  then show ?case by simp
next
  case (Cons c cs)
  obtain m i res err where c: "c = (m, i, res, err)" by (cases c) auto
  let ?r = "log_test r m i res err"
  have 1: "crash_count ?r = int (length (bugs_found ?r))"
    using Cons.prems(1)
    by (simp add: log_test_crash_count log_test_bugs_found error_is_true_def split: option.splits)
  have 2: "\<forall>b \<in> set (bugs_found ?r). length (bug_input b) \<le> 100"
    using Cons.prems(2)
    by (auto simp add: log_test_bugs_found split: option.splits if_splits)
  show ?case unfolding c using Cons.IH [OF 1 2] by simp
qed

text \<open>
  C10: after any sequence of \<^verbatim>\<open>log_test\<close> calls on a fresh reporter, \<^verbatim>\<open>crash_count\<close> is
  the length of \<^verbatim>\<open>bugs_found\<close> (one call appends one bug record when the error is true and
  none otherwise), every stored input rendering has at most 100 characters, and a
  report that \<^verbatim>\<open>generate_report\<close> produces shows a failure count equal to the number of
  bug entries it renders.
\<close>

theorem bug_list_matches_failures:
  "crash_count (log_calls FuzzReporter_init cs) =
     int (length (bugs_found (log_calls FuzzReporter_init cs))) \<and>
   (\<forall>b \<in> set (bugs_found (log_calls FuzzReporter_init cs)). length (bug_input b) \<le> 100) \<and>
   (\<forall>rep. generate_report (log_calls FuzzReporter_init cs) = Inr rep \<longrightarrow>
      rep_failures rep = int (length (rep_bugs rep)) \<and>
      (\<forall>b \<in> set (rep_bugs rep). length (bug_input b) \<le> 100)) \<and>
   length (bugs_found (log_test r m i res err)) =
     length (bugs_found r) + (if error_is_true err then 1 else 0)"
proof -
  have a: "crash_count FuzzReporter_init = int (length (bugs_found FuzzReporter_init))"
    and b: "\<forall>b \<in> set (bugs_found FuzzReporter_init). length (bug_input b) \<le> 100"
    by (simp_all add: FuzzReporter_init_def)
  note inv = log_calls_bugs [OF a b, of cs]
  have rep: "\<forall>rep. generate_report (log_calls FuzzReporter_init cs) = Inr rep \<longrightarrow>
      rep_failures rep = int (length (rep_bugs rep)) \<and>
      (\<forall>b \<in> set (rep_bugs rep). length (bug_input b) \<le> 100)"
    using inv by (auto simp add: generate_report_def split: if_splits)
  have step: "length (bugs_found (log_test r m i res err)) =
     length (bugs_found r) + (if error_is_true err then 1 else 0)"
    by (simp add: log_test_bugs_found error_is_true_def split: option.splits)
  from inv rep step show ?thesis by blast
qed

theorem bug_list_matches_failures_witness:
  "crash_count (log_calls FuzzReporter_init example_calls) = 1 \<and>
   map (\<lambda>b. length (bug_input b)) (bugs_found (log_calls FuzzReporter_init example_calls)) = [100] \<and>
   map_sum exc_type rep_failures (generate_report (log_calls FuzzReporter_init example_calls)) = Inr 1 \<and>
   map_sum exc_type (\<lambda>rep. length (rep_bugs rep))
     (generate_report (log_calls FuzzReporter_init example_calls)) = Inr 1"
  using bug_list_matches_failures [of example_calls FuzzReporter_init "[]" "[]" PNone None]
  by (simp add: example_calls_def FuzzReporter_init_def log_test_def builtin_error_def
      generate_report_def)

lemma rate_bounds:
  fixes t c :: int
  assumes "0 < t" "0 \<le> c" "c \<le> t"
  shows "0 \<le> (of_int (t - c) / of_int t * 100 :: rat) \<and>
         (of_int (t - c) / of_int t * 100 :: rat) \<le> 100"
proof -
  define x :: rat where "x = of_int (t - c) / of_int t"
  have t: "(0::rat) < of_int t" using assms by simp
  have n0: "(0::rat) \<le> of_int (t - c)" using assms by simp
  have n1: "(of_int (t - c) :: rat) \<le> of_int t" using assms by simp
  have "0 \<le> x" unfolding x_def using t n0 by simp
  moreover have "x \<le> 1" unfolding x_def using t n1 by (simp add: divide_le_eq)
  ultimately have "0 \<le> x * 100 \<and> x * 100 \<le> 100" by simp
  then show ?thesis unfolding x_def .
qed

lemma rate_after_calls:
  "cs \<noteq> [] \<Longrightarrow>
   \<exists>rep. generate_report (log_calls FuzzReporter_init cs) = Inr rep \<and>
     rep_total rep = int (length cs) \<and>
     rep_success_rate rep =
       of_int (rep_total rep - rep_failures rep) / of_int (rep_total rep) * 100 \<and>
     0 \<le> rep_success_rate rep \<and> rep_success_rate rep \<le> 100"
proof -
  assume ne: "cs \<noteq> []"
  let ?r = "log_calls FuzzReporter_init cs"
  have init: "0 \<le> crash_count FuzzReporter_init"
    "crash_count FuzzReporter_init \<le> test_count FuzzReporter_init"
    by (simp_all add: FuzzReporter_init_def)
  have tc: "test_count ?r = int (length cs)"
    by (simp add: log_calls_test_count FuzzReporter_init_def)
  then have pos: "0 < test_count ?r" using ne by simp
  from log_calls_bounds [OF init, of cs]
  have b: "0 \<le> crash_count ?r" "crash_count ?r \<le> test_count ?r" by simp_all
  show ?thesis
    using pos tc rate_bounds [OF pos b] by (simp add: generate_report_def)
qed

section \<open>Properties of the generators and of the argument handling\<close>

lemma random_choices_length: "length (fst (random_choices E pop k t)) = nat k"
  by (simp add: random_choices_def)

lemma random_choices_set:
  "pop \<noteq> [] \<Longrightarrow> set (fst (random_choices E pop k t)) \<subseteq> set pop"
  by (auto simp add: random_choices_def)

lemma alphabet_length: "length alphabet = 94"
  by (simp add: alphabet_def ascii_letters_def digits_def punctuation_def)

lemma alphabet_nonempty: "alphabet \<noteq> []"
  using alphabet_length by auto

text \<open>
  C9: \<^verbatim>\<open>generate_random_string\<close> is a total function of its arguments and the random
  source. With a length \<open>n\<close> it returns exactly \<open>n\<close> characters; every character it returns
  is a letter, a digit or a punctuation character; without a length the result has at
  most 100 characters, every length from 0 to 100 is the result for some random source,
  and the empty string is one of the results.
\<close>

theorem random_string:
  "length (fst (generate_random_string E (Some (int n)) t)) = n \<and>
   set (fst (generate_random_string E len t)) \<subseteq> set alphabet \<and>
   length (fst (generate_random_string E None t)) \<le> 100 \<and>
   (l \<le> 100 \<longrightarrow>
      length (fst (generate_random_string (E\<lparr>entropy := (\<lambda>t. l)\<rparr>) None t)) = l) \<and>
   fst (generate_random_string (E\<lparr>entropy := (\<lambda>t. 0)\<rparr>) None t) = []"
proof -
  have 1: "length (fst (generate_random_string E (Some (int n)) t)) = n"
    by (simp add: generate_random_string_def random_choices_length)
  have 2: "set (fst (generate_random_string E len t)) \<subseteq> set alphabet"
    using random_choices_set [OF alphabet_nonempty]
    by (cases len) (simp_all add: generate_random_string_def Let_def split: prod.splits)
  have 3: "length (fst (generate_random_string E' None t)) = entropy E' t mod 101" for E'
    by (simp add: generate_random_string_def Let_def randint_def random_choices_length
        split: prod.splits)
  have 4: "length (fst (generate_random_string E None t)) \<le> 100"
    unfolding 3 by (simp add: less_Suc_eq_le [symmetric])
  have 5: "l \<le> 100 \<longrightarrow>
      length (fst (generate_random_string (E\<lparr>entropy := (\<lambda>t. l)\<rparr>) None t)) = l"
    unfolding 3 by simp
  have 6: "fst (generate_random_string (E\<lparr>entropy := (\<lambda>t. 0)\<rparr>) None t) = []"
    using 3 [of "E\<lparr>entropy := (\<lambda>t. 0)\<rparr>"] by simp
  from 1 2 4 5 6 show ?thesis by blast
qed

theorem random_string_witness:
  "(3::nat) \<le> 100 \<and>
   fst (generate_random_string (quiet_env\<lparr>entropy := (\<lambda>t. 3)\<rparr>) None 0) = ''ddd'' \<and>
   fst (generate_random_string quiet_env (Some 5) 0) = ''aaaaa''"
  using random_string [of quiet_env 5 0 "Some 5" 3]
  by (simp add: generate_random_string_def randint_def random_choices_def quiet_env_def
      alphabet_def ascii_letters_def upt_rec)

lemma dropWhile_keeps: "x \<in> set s \<Longrightarrow> \<not> P x \<Longrightarrow> x \<in> set (dropWhile P s)"
  by (induction s) auto

lemma strip_keeps: "x \<in> set s \<Longrightarrow> \<not> is_space x \<Longrightarrow> x \<in> set (strip s)"
  unfolding strip_def by (simp add: dropWhile_keeps)

lemma more_digits_chars:
  "more_digits acc cs = Some n \<Longrightarrow> \<forall>c \<in> set cs. is_digit c \<or> c = 95"
  by (induction acc cs arbitrary: n rule: more_digits.induct) (auto split: if_splits)

lemma unsigned_literal_chars:
  "unsigned_literal s = Some n \<Longrightarrow> \<forall>c \<in> set s. is_digit c \<or> c = 95"
  by (cases s) (auto simp add: unsigned_literal_def split: if_splits dest: more_digits_chars)

lemma py_int_cases:
  "py_int I s = Inl invalid_literal \<or> py_int I s = Inl exceeds_limit \<or> (\<exists>n. py_int I s = Inr n)"
  by (auto simp add: py_int_def Let_def split: prod.splits option.splits)

lemma ValueError_type:
  "exc_type invalid_literal = ''ValueError''" "exc_type exceeds_limit = ''ValueError''"
  by (simp_all add: invalid_literal_def exceeds_limit_def ValueError_def builtin_error_def)

text \<open>What the literal is read from, once the white space around it and the sign are gone.\<close>

lemma py_int_body:
  "\<exists>negative body.
     set body \<subseteq> set (transform_decimal_and_space I s) \<and>
     (\<forall>k \<in> set (transform_decimal_and_space I s). \<not> literal_char k \<longrightarrow> k \<in> set body) \<and>
     py_int I s =
       (case unsigned_literal (takeWhile (\<lambda>c. is_digit c \<or> c = 95) body) of
          None \<Rightarrow> Inl invalid_literal
        | Some n \<Rightarrow>
            if too_many_digits I (takeWhile (\<lambda>c. is_digit c \<or> c = 95) body)
            then Inl exceeds_limit
            else if dropWhile (\<lambda>c. is_digit c \<or> c = 95) body \<noteq> [] then Inl invalid_literal
            else Inr (if negative then - int n else int n))"
proof -
  define st where "st = strip (transform_decimal_and_space I s)"
  define sb where "sb = (case st of [] \<Rightarrow> (False, st)
      | x # xs \<Rightarrow> if x = 45 then (True, xs) else if x = 43 then (False, xs)
                  else (False, st))"
  have sub: "set st \<subseteq> set (transform_decimal_and_space I s)"
    unfolding st_def strip_def
    by (metis set_dropWhileD set_rev subsetI)
  have body_sub: "set (snd sb) \<subseteq> set st"
    unfolding sb_def by (cases st) auto
  have keep: "k \<in> set (snd sb)"
    if "k \<in> set (transform_decimal_and_space I s)" "\<not> literal_char k" for k
  proof -
    from that have "\<not> is_space k" "k \<noteq> 45" "k \<noteq> 43"
      by (auto simp add: literal_char_def)
    with that(1) have "k \<in> set st" by (simp add: st_def strip_keeps)
    with \<open>k \<noteq> 45\<close> \<open>k \<noteq> 43\<close> show ?thesis
      unfolding sb_def by (cases st) auto
  qed
  have "py_int I s =
       (case unsigned_literal (takeWhile (\<lambda>c. is_digit c \<or> c = 95) (snd sb)) of
          None \<Rightarrow> Inl invalid_literal
        | Some n \<Rightarrow>
            if too_many_digits I (takeWhile (\<lambda>c. is_digit c \<or> c = 95) (snd sb))
            then Inl exceeds_limit
            else if dropWhile (\<lambda>c. is_digit c \<or> c = 95) (snd sb) \<noteq> [] then Inl invalid_literal
            else Inr (if fst sb then - int n else int n))"
    unfolding py_int_def Let_def st_def [symmetric] sb_def [symmetric]
    by (simp add: case_prod_unfold)
  with sub body_sub keep show ?thesis by blast
qed

lemma py_int_rejects:
  assumes "k \<in> set (transform_decimal_and_space I s)" "\<not> literal_char k"
  shows "\<exists>e. py_int I s = Inl e"
proof -
  from py_int_body [of I s] obtain negative body where
    b: "\<forall>k \<in> set (transform_decimal_and_space I s). \<not> literal_char k \<longrightarrow> k \<in> set body"
    and p: "py_int I s =
       (case unsigned_literal (takeWhile (\<lambda>c. is_digit c \<or> c = 95) body) of
          None \<Rightarrow> Inl invalid_literal
        | Some n \<Rightarrow>
            if too_many_digits I (takeWhile (\<lambda>c. is_digit c \<or> c = 95) body)
            then Inl exceeds_limit
            else if dropWhile (\<lambda>c. is_digit c \<or> c = 95) body \<noteq> [] then Inl invalid_literal
            else Inr (if negative then - int n else int n))"
    by blast
  from b assms have "k \<in> set body" by blast
  moreover from assms(2) have "\<not> (is_digit k \<or> k = 95)"
    by (auto simp add: literal_char_def)
  ultimately have "dropWhile (\<lambda>c. is_digit c \<or> c = 95) body \<noteq> []"
    by (auto simp add: dropWhile_eq_Nil_conv)
  with p show ?thesis by (simp split: option.splits)
qed

lemma transform_chars_foreign:
  "c \<in> set s \<Longrightarrow> foreign I c \<Longrightarrow> \<exists>k \<in> set (transform_chars I s). \<not> literal_char k"
proof (induction s)
  case Nil
  then show ?case by simp
next
  case (Cons x xs)
  have q: "\<not> literal_char 63"
    by (simp add: literal_char_def is_digit_def is_space_def)
  show ?case
  proof (cases "c = x")
    case True
    with Cons.prems(2) q show ?thesis
      by (auto simp add: foreign_def split: if_splits)
  next
    case False
    with Cons.prems(1) have "c \<in> set xs" by simp
    from Cons.IH [OF this Cons.prems(2)] q show ?thesis
      by (auto split: option.splits)
  qed
qed

lemma transform_foreign:
  assumes "c \<in> set s" "foreign I c"
  shows "\<exists>k \<in> set (transform_decimal_and_space I s). \<not> literal_char k"
proof (cases "list_all (\<lambda>c. c < 128) s")
  case True
  with assms(1) have "c < 128" by (simp add: list_all_iff)
  have "\<not> literal_char c"
  proof (cases "c < 127")
    case True
    with assms(2) show ?thesis by (simp add: foreign_def)
  next
    case False
    with \<open>c < 128\<close> have "c = 127" by simp
    then show ?thesis by (simp add: literal_char_def is_digit_def is_space_def)
  qed
  with True assms(1) show ?thesis
    by (auto simp add: transform_decimal_and_space_def)
next
  case False
  with transform_chars_foreign [OF assms] show ?thesis
    by (simp add: transform_decimal_and_space_def)
qed

text \<open>A string of digits only is read as it stands.\<close>

lemma more_digits_all:
  "list_all is_digit cs \<Longrightarrow> \<exists>n. more_digits acc cs = Some n"
  by (induction acc cs rule: more_digits.induct) auto

lemma digits_only:
  assumes "list_all is_digit s" "s \<noteq> []"
  shows "py_int I s = (if too_many_digits I s then Inl exceeds_limit
                       else Inr (int (the (unsigned_literal s))))"
proof -
  from assms obtain c cs where s: "s = c # cs" by (cases s) auto
  have d: "\<And>x. x \<in> set s \<Longrightarrow> is_digit x" using assms(1) by (simp add: list_all_iff)
  have ascii: "list_all (\<lambda>c. c < 128) s"
    using assms(1) by (auto simp add: list_all_iff is_digit_def)
  have nsp: "\<And>x. is_digit x \<Longrightarrow> \<not> is_space x"
    by (auto simp add: is_digit_def is_space_def)
  have "dropWhile is_space s = s"
    using d [of c] nsp by (simp add: s)
  moreover have "dropWhile is_space (rev s) = rev s"
    using d [of "last s"] nsp assms(2) by (cases "rev s") (auto simp add: last_rev [symmetric] hd_rev)
  ultimately have st: "strip s = s" by (simp add: strip_def)
  have c: "c \<noteq> 45" "c \<noteq> 43" using d [of c] by (auto simp add: s is_digit_def)
  obtain n where n: "unsigned_literal s = Some n"
    using more_digits_all [of cs "digit_value c"] assms(1) d [of c]
    by (auto simp add: s unsigned_literal_def)
  have tw: "takeWhile (\<lambda>c. is_digit c \<or> c = 95) s = s"
    "dropWhile (\<lambda>c. is_digit c \<or> c = 95) s = []"
    using d by (simp_all add: takeWhile_eq_all_conv)
  have sb: "(case s of [] \<Rightarrow> (False, s)
      | x # xs \<Rightarrow> if x = 45 then (True, xs) else if x = 43 then (False, xs)
                  else (False, s)) = (False, s)"
    by (simp add: s c)
  have t: "transform_decimal_and_space I s = s"
    by (simp add: transform_decimal_and_space_def ascii)
  show ?thesis
    unfolding py_int_def Let_def t st sb by (simp add: tw n)
qed

text \<open>
  C8, as the code has it. The claim says that a missing argument falls back to 20 with a
  warning. With no argument the count is 20 and nothing is printed: the warning belongs
  to the handler of \<^verbatim>\<open>ValueError\<close> only.
\<close>

theorem missing_argument_counterexample:
  "parse_iterations cpython [ustr ''fuzz.py''] = Inr (20, [])"
  by (simp add: parse_iterations_def)

text \<open>
  C8, amended: the argument handling never raises. With no argument the count is 20 and
  no line is printed. With an argument that \<^verbatim>\<open>int\<close> rejects the count is 20 and the
  warning is printed; with an argument that \<^verbatim>\<open>int\<close> accepts the count is its value.
  \<^verbatim>\<open>int\<close> rejects every argument that holds a code point foreign to a decimal literal,
  and every argument of digits only that has more than 640 digits and more digits than
  the interpreter's bound.
\<close>

theorem iteration_argument:
  "(\<exists>n out. parse_iterations I argv = Inr (n, out)) \<and>
   (length argv \<le> 1 \<longrightarrow> parse_iterations I argv = Inr (20, [])) \<and>
   (1 < length argv \<and> py_int I (argv ! 1) = Inl e \<longrightarrow>
      parse_iterations I argv = Inr (20, [''Invalid iteration count, using default: 20''])) \<and>
   (1 < length argv \<and> py_int I (argv ! 1) = Inr k \<longrightarrow>
      parse_iterations I argv = Inr (k, [''Using custom iteration count: '' @ str_int k])) \<and>
   (1 < length argv \<and> c \<in> set (argv ! 1) \<and> foreign I c \<longrightarrow>
      parse_iterations I argv = Inr (20, [''Invalid iteration count, using default: 20''])) \<and>
   (1 < length argv \<and> list_all is_digit (argv ! 1) \<and> 640 < length (argv ! 1) \<and>
    0 < int_max_str_digits I \<and> int_max_str_digits I < length (argv ! 1) \<longrightarrow>
      parse_iterations I argv = Inr (20, [''Invalid iteration count, using default: 20'']))"
proof -
  note v = ValueError_type
  have 1: "\<exists>n out. parse_iterations I argv = Inr (n, out)"
    using py_int_cases [of I "argv ! 1"] v by (auto simp add: parse_iterations_def)
  have 2: "length argv \<le> 1 \<longrightarrow> parse_iterations I argv = Inr (20, [])"
    by (simp add: parse_iterations_def)
  have 3: "parse_iterations I argv = Inr (20, [''Invalid iteration count, using default: 20''])"
    if "1 < length argv" "py_int I (argv ! 1) = Inl x" for x
    using that py_int_cases [of I "argv ! 1"] v by (auto simp add: parse_iterations_def)
  have 4: "1 < length argv \<and> py_int I (argv ! 1) = Inr k \<longrightarrow>
      parse_iterations I argv = Inr (k, [''Using custom iteration count: '' @ str_int k])"
    by (simp add: parse_iterations_def)
  have 5: "1 < length argv \<and> c \<in> set (argv ! 1) \<and> foreign I c \<longrightarrow>
      parse_iterations I argv = Inr (20, [''Invalid iteration count, using default: 20''])"
  proof (intro impI, elim conjE)
    assume l: "1 < length argv" and c: "c \<in> set (argv ! 1)" "foreign I c"
    from transform_foreign [OF c] obtain k where
      "k \<in> set (transform_decimal_and_space I (argv ! 1))" "\<not> literal_char k" by blast
    from py_int_rejects [OF this] obtain x where "py_int I (argv ! 1) = Inl x" by blast
    from 3 [OF l this] show
      "parse_iterations I argv = Inr (20, [''Invalid iteration count, using default: 20''])" .
  qed
  have 6: "1 < length argv \<and> list_all is_digit (argv ! 1) \<and> 640 < length (argv ! 1) \<and>
    0 < int_max_str_digits I \<and> int_max_str_digits I < length (argv ! 1) \<longrightarrow>
      parse_iterations I argv = Inr (20, [''Invalid iteration count, using default: 20''])"
  proof (intro impI, elim conjE)
    assume l: "1 < length argv" and d: "list_all is_digit (argv ! 1)"
      and n: "640 < length (argv ! 1)" "0 < int_max_str_digits I"
        "int_max_str_digits I < length (argv ! 1)"
    from n(1) have ne: "argv ! 1 \<noteq> []" by auto
    have "filter is_digit (argv ! 1) = argv ! 1"
      using d by (simp add: list_all_iff)
    then have "too_many_digits I (argv ! 1)"
      using n by (simp add: too_many_digits_def)
    with digits_only [OF d ne, of I] have "py_int I (argv ! 1) = Inl exceeds_limit" by simp
    from 3 [OF l this] show
      "parse_iterations I argv = Inr (20, [''Invalid iteration count, using default: 20''])" .
  qed
  from 1 2 3 4 5 6 show ?thesis by blast
qed

lemma ustr_chars: "ustr [] = []" "ustr (x # xs) = of_char x # ustr xs"
  by (simp_all add: ustr_def)

lemmas py_int_eval =
  parse_iterations_def py_int_def transform_decimal_and_space_def strip_def is_space_def
  unsigned_literal_def is_digit_def digit_value_def too_many_digits_def
  str_int_def str_nat.simps digit_char_def cpython_def ustr_chars

theorem iteration_argument_witness:
  "parse_iterations cpython [ustr ''fuzz.py'', ustr ''abc''] =
     Inr (20, [''Invalid iteration count, using default: 20'']) \<and>
   parse_iterations cpython [ustr ''fuzz.py'', [28, 53]] =
     Inr (20, [''Invalid iteration count, using default: 20'']) \<and>
   parse_iterations cpython [ustr ''fuzz.py'', replicate 4301 55] =
     Inr (20, [''Invalid iteration count, using default: 20'']) \<and>
   parse_iterations cpython [ustr ''fuzz.py'', [160, 1637]] =
     Inr (5, [''Using custom iteration count: 5'']) \<and>
   parse_iterations cpython [ustr ''fuzz.py'', [160, 53]] =
     Inr (5, [''Using custom iteration count: 5'']) \<and>
   parse_iterations cpython [ustr ''fuzz.py''] = Inr (20, [])"
proof -
  have a: "py_int cpython [160, 1637] = Inr 5" "py_int cpython [160, 53] = Inr 5"
    by (simp_all add: py_int_eval)
  have s: "str_int 5 = ''5''"
    by (simp add: str_int_def str_nat.simps digit_char_def)
  have f: "foreign cpython 97" "foreign cpython 28"
    by (simp_all add: foreign_def literal_char_def is_digit_def is_space_def)
  have d: "list_all is_digit (replicate 4301 55)"
    by (simp add: list_all_iff is_digit_def)
  have m: "int_max_str_digits cpython = 4300" by (simp add: cpython_def)
  show ?thesis
    using iteration_argument [of cpython "[ustr ''fuzz.py'', ustr ''abc'']" _ _ 97]
      iteration_argument [of cpython "[ustr ''fuzz.py'', [28, 53]]" _ _ 28]
      iteration_argument [of cpython "[ustr ''fuzz.py'', replicate 4301 55]"]
      iteration_argument [of cpython "[ustr ''fuzz.py'', [160, 1637]]" _ 5]
      iteration_argument [of cpython "[ustr ''fuzz.py'', [160, 53]]" _ 5]
      iteration_argument [of cpython "[ustr ''fuzz.py'']"]
      a s f d m
    by (simp add: ustr_chars)
qed

section \<open>Counting the logged outcomes of a campaign\<close>

lemma log_calls_append: "log_calls r (cs @ ds) = log_calls (log_calls r cs) ds"
proof (induction cs arbitrary: r)
  case Nil
  show ?case by simp
next
  case (Cons c cs)
  obtain m i res err where c: "c = (m, i, res, err)" by (cases c) auto
  show ?case unfolding c by (simp add: Cons.IH)
qed

lemma logged_more_refl: "logged_more r 0 r"
  by (simp add: logged_more_def)

lemma logged_more_trans:
  "logged_more a j b \<Longrightarrow> logged_more b k c \<Longrightarrow> logged_more a (j + k) c"
  unfolding logged_more_def
proof -
  assume "\<exists>cs. length cs = j \<and> b = log_calls a cs" "\<exists>cs. length cs = k \<and> c = log_calls b cs"
  then obtain cs ds where "length cs = j" "b = log_calls a cs" "length ds = k" "c = log_calls b ds"
    by blast
  then have "length (cs @ ds) = j + k \<and> c = log_calls a (cs @ ds)"
    by (simp add: log_calls_append)
  then show "\<exists>cs. length cs = j + k \<and> c = log_calls a cs" by blast
qed

lemma logged_more_log_test: "logged_more r (Suc 0) (log_test r m i res err)"
  unfolding logged_more_def
  by (rule exI [of _ "[(m, i, res, err)]"]) simp

lemma reporter_report_test [simp]:
  "reporter (report_test w m i res err) = log_test (reporter w) m i res err"
  "tick (report_test w m i res err) = tick w"
  "trace (report_test w m i res err) = trace w @ [Logged m i err]"
  by (simp_all add: report_test_def)

lemma guarded_call_Inr:
  assumes "guarded_call w name args target okl errl = Inr w'"
  shows "\<exists>lbl res err. w' = report_test (w\<lparr>tick := Suc (tick w), trace := trace w @ [Invoked name args]\<rparr>) name lbl res err"
  using assms
  by (auto simp add: guarded_call_def invoke_def split: sum.splits if_splits)

lemma guarded_call_logged:
  assumes "guarded_call w name args target okl errl = Inr w'"
  shows "logged_more (reporter w) (Suc 0) (reporter w')"
proof -
  from guarded_call_Inr [OF assms] obtain lbl res err where
    "w' = report_test (w\<lparr>tick := Suc (tick w), trace := trace w @ [Invoked name args]\<rparr>) name lbl res err"
    by blast
  then show ?thesis by (simp add: logged_more_log_test)
qed

lemma for_range_logged:
  assumes step: "\<And>s s'. body s = Inr s' \<Longrightarrow> logged_more (reporter (f s)) (Suc 0) (reporter (f s'))"
  shows "for_range n body s = Inr s' \<Longrightarrow> logged_more (reporter (f s)) n (reporter (f s'))"
proof (induction n arbitrary: s)
  case 0
  then show ?case by (simp add: logged_more_refl)
next
  case (Suc n)
  from Suc.prems obtain s1 where b: "body s = Inr s1" and r: "for_range n body s1 = Inr s'"
    by (auto split: sum.splits)
  from logged_more_trans [OF step [OF b] Suc.IH [OF r]] show ?case by simp
qed

lemma for_each_logged:
  assumes step: "\<And>x s s'. body x s = Inr s' \<Longrightarrow> logged_more (reporter s) (Suc 0) (reporter s')"
  shows "for_each xs body s = Inr s' \<Longrightarrow> logged_more (reporter s) (length xs) (reporter s')"
proof (induction xs arbitrary: s)
  case Nil
  then show ?case by (simp add: logged_more_refl)
next
  case (Cons x xs)
  from Cons.prems obtain s1 where b: "body x s = Inr s1" and r: "for_each xs body s1 = Inr s'"
    by (auto split: sum.splits)
  from logged_more_trans [OF step [OF b] Cons.IH [OF r]] show ?case by simp
qed

lemma parse_random_iteration_logged:
  "parse_random_iteration E w = Inr w' \<Longrightarrow> logged_more (reporter w) (Suc 0) (reporter w')"
  unfolding parse_random_iteration_def Let_def
  by (auto split: prod.splits dest!: guarded_call_logged)

lemma parse_fake_iteration_logged:
  "parse_fake_iteration E w = Inr w' \<Longrightarrow> logged_more (reporter w) (Suc 0) (reporter w')"
  unfolding parse_fake_iteration_def Let_def
  by (auto split: prod.splits dest!: guarded_call_logged)

lemma fuzz_getPythonParseObject_logged:
  assumes "fuzz_getPythonParseObject E N w = Inr w'"
  shows "logged_more (reporter w) (nat N + 5) (reporter w')"
proof -
  from assms obtain w1 where
    a: "for_range (nat N) (parse_random_iteration E) w = Inr w1" and
    b: "for_range 5 (parse_fake_iteration E) w1 = Inr w'"
    by (auto simp add: fuzz_getPythonParseObject_def split: sum.splits)
  from for_range_logged [where f = "\<lambda>w. w", OF parse_random_iteration_logged a]
    for_range_logged [where f = "\<lambda>w. w", OF parse_fake_iteration_logged b]
  show ?thesis by (rule logged_more_trans)
qed

lemma logging_iteration_logged:
  assumes "logging_iteration E s = Inr s'"
  shows "logged_more (reporter (fst s)) (Suc 0) (reporter (fst s'))"
  using assms
  unfolding logging_iteration_def logging_handler_def Let_def invoke_def
  by (auto split: prod.splits sum.splits if_splits option.splits simp add: logged_more_log_test)

lemma fuzz_checkLoggingPerData_logged:
  assumes "fuzz_checkLoggingPerData E N w = Inr w'"
  shows "logged_more (reporter w) (nat N) (reporter w')"
proof -
  from assms obtain nm where
    a: "for_range (nat N) (logging_iteration E) (w, None) = Inr (w', nm)"
    by (auto simp add: fuzz_checkLoggingPerData_def split: sum.splits)
  from for_range_logged [where f = fst, OF logging_iteration_logged a]
  show ?thesis by simp
qed

lemma days_call_logged:
  "days_call E p w = Inr w' \<Longrightarrow> logged_more (reporter w) (Suc 0) (reporter w')"
  unfolding days_call_def
  by (auto split: prod.splits dest!: guarded_call_logged)

lemma days_random_iteration_logged:
  "days_random_iteration E w = Inr w' \<Longrightarrow> logged_more (reporter w) (Suc 0) (reporter w')"
  unfolding days_random_iteration_def Let_def
  by (auto split: prod.splits dest!: days_call_logged)

lemma fuzz_days_between_logged:
  assumes "fuzz_days_between E N w = Inr w'"
  shows "logged_more (reporter w) (nat N + 8) (reporter w')"
proof -
  from assms obtain w1 where
    a: "for_range (nat N) (days_random_iteration E) w = Inr w1" and
    b: "for_each (fst (days_edge_cases (tick w1))) (days_call E)
          (w1\<lparr>tick := snd (days_edge_cases (tick w1))\<rparr>) = Inr w'"
    by (auto simp add: fuzz_days_between_def Let_def split: sum.splits prod.splits)
  have len: "length (fst (days_edge_cases (tick w1))) = 8"
    by (simp add: days_edge_cases_def)
  from for_each_logged [OF days_call_logged b]
  have "logged_more (reporter w1) 8 (reporter w')" by (simp add: len)
  with for_range_logged [where f = "\<lambda>w. w", OF days_random_iteration_logged a]
  show ?thesis by (rule logged_more_trans)
qed

lemma count_random_iteration_logged:
  "count_random_iteration E w = Inr w' \<Longrightarrow> logged_more (reporter w) (Suc 0) (reporter w')"
  unfolding count_random_iteration_def Let_def
  by (auto split: prod.splits dest!: guarded_call_logged)

lemma count_call_logged:
  "count_call E d w = Inr w' \<Longrightarrow> logged_more (reporter w) (Suc 0) (reporter w')"
  unfolding count_call_def
  by (auto dest!: guarded_call_logged)

lemma fuzz_getPythonFileCount_logged:
  assumes "fuzz_getPythonFileCount E N w = Inr w'"
  shows "logged_more (reporter w) (nat N + 6) (reporter w')"
proof -
  from assms obtain w1 where
    a: "for_range (nat N) (count_random_iteration E) w = Inr w1" and
    b: "for_each (fst (invalid_dirs E (tick w1))) (count_call E)
          (w1\<lparr>tick := snd (invalid_dirs E (tick w1))\<rparr>) = Inr w'"
    by (auto simp add: fuzz_getPythonFileCount_def Let_def split: sum.splits prod.splits)
  have len: "length (fst (invalid_dirs E (tick w1))) = 6"
    by (simp add: invalid_dirs_def Let_def split: prod.splits)
  from for_each_logged [OF count_call_logged b]
  have "logged_more (reporter w1) 6 (reporter w')" by (simp add: len)
  with for_range_logged [where f = "\<lambda>w. w", OF count_random_iteration_logged a]
  show ?thesis by (rule logged_more_trans)
qed

lemma load_random_iteration_logged:
  "load_random_iteration E w = Inr w' \<Longrightarrow> logged_more (reporter w) (Suc 0) (reporter w')"
  unfolding load_random_iteration_def Let_def
  by (auto split: prod.splits dest!: guarded_call_logged)

lemma load_fake_iteration_logged:
  "load_fake_iteration E w = Inr w' \<Longrightarrow> logged_more (reporter w) (Suc 0) (reporter w')"
  unfolding load_fake_iteration_def Let_def
  by (auto split: prod.splits dest!: guarded_call_logged)

lemma fuzz_getDataLoadCount_logged:
  assumes "fuzz_getDataLoadCount E N w = Inr w'"
  shows "logged_more (reporter w) (nat N + 5) (reporter w')"
proof -
  from assms obtain w1 where
    a: "for_range (nat N) (load_random_iteration E) w = Inr w1" and
    b: "for_range 5 (load_fake_iteration E) w1 = Inr w'"
    by (auto simp add: fuzz_getDataLoadCount_def split: sum.splits)
  from for_range_logged [where f = "\<lambda>w. w", OF load_random_iteration_logged a]
    for_range_logged [where f = "\<lambda>w. w", OF load_fake_iteration_logged b]
  show ?thesis by (rule logged_more_trans)
qed

lemma run_campaigns_logged:
  assumes "run_campaigns E N w = Inr w'"
  shows "logged_more (reporter w) (5 * nat N + 24) (reporter w')"
proof -
  from assms obtain w1 w2 w3 w4 where
    c1: "fuzz_getPythonParseObject E N w = Inr w1" and
    c2: "fuzz_checkLoggingPerData E N w1 = Inr w2" and
    c3: "fuzz_days_between E N w2 = Inr w3" and
    c4: "fuzz_getPythonFileCount E N w3 = Inr w4" and
    c5: "fuzz_getDataLoadCount E N w4 = Inr w'"
    by (auto simp add: run_campaigns_def split: sum.splits)
  have "logged_more (reporter w)
          ((nat N + 5) + (nat N) + (nat N + 8) + (nat N + 6) + (nat N + 5)) (reporter w')"
    by (intro logged_more_trans [OF _ fuzz_getDataLoadCount_logged [OF c5]]
        logged_more_trans [OF _ fuzz_getPythonFileCount_logged [OF c4]]
        logged_more_trans [OF _ fuzz_days_between_logged [OF c3]]
        logged_more_trans [OF fuzz_getPythonParseObject_logged [OF c1]
          fuzz_checkLoggingPerData_logged [OF c2]])
  moreover have "(nat N + 5) + (nat N) + (nat N + 8) + (nat N + 6) + (nat N + 5) = 5 * nat N + 24"
    by simp
  ultimately show ?thesis by simp
qed

section \<open>The events of the edge-case phases\<close>

lemma guarded_call_trace:
  assumes "guarded_call w name args target okl errl = Inr w'"
  shows "\<exists>lbl err. trace w' = trace w @ [Invoked name args, Logged name lbl err]"
  using assms
  by (auto simp add: guarded_call_def invoke_def report_test_def split: sum.splits if_splits)

lemma for_each_paired:
  assumes step: "\<And>x s s'. body x s = Inr s' \<Longrightarrow>
     \<exists>lbl err. trace s' = trace s @ [Invoked (fst (c x)) (snd (c x)), Logged (fst (c x)) lbl err]"
  shows "for_each xs body s = Inr s' \<Longrightarrow>
     \<exists>evs. trace s' = trace s @ evs \<and> paired (map c xs) evs"
proof (induction xs arbitrary: s)
  case Nil
  then show ?case by simp
next
  case (Cons x xs)
  from Cons.prems obtain s1 where b: "body x s = Inr s1" and r: "for_each xs body s1 = Inr s'"
    by (auto split: sum.splits)
  from step [OF b] obtain lbl err where
    t1: "trace s1 = trace s @ [Invoked (fst (c x)) (snd (c x)), Logged (fst (c x)) lbl err]"
    by blast
  from Cons.IH [OF r] obtain evs where t2: "trace s' = trace s1 @ evs" and p: "paired (map c xs) evs"
    by blast
  have "paired (map c (x # xs)) ([Invoked (fst (c x)) (snd (c x)), Logged (fst (c x)) lbl err] @ evs)"
    using p by (cases "c x") simp
  moreover have "trace s' = trace s @ ([Invoked (fst (c x)) (snd (c x)), Logged (fst (c x)) lbl err] @ evs)"
    using t1 t2 by simp
  ultimately show ?case by blast
qed

lemma for_range_paired:
  assumes step: "\<And>s s'. body s = Inr s' \<Longrightarrow>
     \<exists>r lbl err. trace s' = trace s @ [Invoked (fst (c r)) (snd (c r)), Logged (fst (c r)) lbl err]"
  shows "for_range n body s = Inr s' \<Longrightarrow>
     \<exists>rs evs. length rs = n \<and> trace s' = trace s @ evs \<and> paired (map c rs) evs"
proof (induction n arbitrary: s)
  case 0
  then show ?case by simp
next
  case (Suc n)
  from Suc.prems obtain s1 where b: "body s = Inr s1" and r: "for_range n body s1 = Inr s'"
    by (auto split: sum.splits)
  from step [OF b] obtain x lbl err where
    t1: "trace s1 = trace s @ [Invoked (fst (c x)) (snd (c x)), Logged (fst (c x)) lbl err]"
    by blast
  from Suc.IH [OF r] obtain rs evs where
    l: "length rs = n" and t2: "trace s' = trace s1 @ evs" and p: "paired (map c rs) evs"
    by blast
  have "paired (map c (x # rs)) ([Invoked (fst (c x)) (snd (c x)), Logged (fst (c x)) lbl err] @ evs)"
    using p by (cases "c x") simp
  moreover have "trace s' = trace s @ ([Invoked (fst (c x)) (snd (c x)), Logged (fst (c x)) lbl err] @ evs)"
    using t1 t2 by simp
  moreover have "length (x # rs) = Suc n" using l by simp
  ultimately show ?case by blast
qed

lemma parse_fake_iteration_trace:
  assumes "parse_fake_iteration E w = Inr w'"
  shows "\<exists>r lbl err. trace w' = trace w @
     [Invoked (fst (fake_file_call ''getPythonParseObject'' r)) (snd (fake_file_call ''getPythonParseObject'' r)),
      Logged (fst (fake_file_call ''getPythonParseObject'' r)) lbl err]"
  using assms unfolding parse_fake_iteration_def Let_def
  by (auto split: prod.splits dest!: guarded_call_trace simp add: fake_file_call_def)

lemma load_fake_iteration_trace:
  assumes "load_fake_iteration E w = Inr w'"
  shows "\<exists>r lbl err. trace w' = trace w @
     [Invoked (fst (fake_file_call ''getDataLoadCount'' r)) (snd (fake_file_call ''getDataLoadCount'' r)),
      Logged (fst (fake_file_call ''getDataLoadCount'' r)) lbl err]"
  using assms unfolding load_fake_iteration_def Let_def
  by (auto split: prod.splits dest!: guarded_call_trace simp add: fake_file_call_def)

lemma days_call_trace:
  assumes "days_call E p w = Inr w'"
  shows "\<exists>lbl err. trace w' = trace w @
     [Invoked (fst (''days_between'', [fst p, snd p])) (snd (''days_between'', [fst p, snd p])),
      Logged (fst (''days_between'', [fst p, snd p])) lbl err]"
  using assms guarded_call_trace [of w "''days_between''" "[fst p, snd p]" _ _ _ w']
  by (auto simp add: days_call_def split: prod.splits)

lemma count_call_trace:
  assumes "count_call E d w = Inr w'"
  shows "\<exists>lbl err. trace w' = trace w @
     [Invoked (fst (''getPythonFileCount'', [d])) (snd (''getPythonFileCount'', [d])),
      Logged (fst (''getPythonFileCount'', [d])) lbl err]"
  using assms guarded_call_trace [of w "''getPythonFileCount''" "[d]" _ _ _ w']
  by (auto simp add: count_call_def)

lemma parse_edge_phase:
  assumes "fuzz_getPythonParseObject E N w = Inr w'"
  shows "\<exists>w1 rs evs. for_range (nat N) (parse_random_iteration E) w = Inr w1 \<and>
     length rs = 5 \<and> trace w' = trace w1 @ evs \<and>
     paired (map (fake_file_call ''getPythonParseObject'') rs) evs"
proof -
  from assms obtain w1 where
    a: "for_range (nat N) (parse_random_iteration E) w = Inr w1" and
    b: "for_range 5 (parse_fake_iteration E) w1 = Inr w'"
    by (auto simp add: fuzz_getPythonParseObject_def split: sum.splits)
  from for_range_paired [where c = "fake_file_call ''getPythonParseObject''"
      and body = "parse_fake_iteration E", OF parse_fake_iteration_trace [of E] b] a
  show ?thesis by blast
qed

lemma load_edge_phase:
  assumes "fuzz_getDataLoadCount E N w = Inr w'"
  shows "\<exists>w1 rs evs. for_range (nat N) (load_random_iteration E) w = Inr w1 \<and>
     length rs = 5 \<and> trace w' = trace w1 @ evs \<and>
     paired (map (fake_file_call ''getDataLoadCount'') rs) evs"
proof -
  from assms obtain w1 where
    a: "for_range (nat N) (load_random_iteration E) w = Inr w1" and
    b: "for_range 5 (load_fake_iteration E) w1 = Inr w'"
    by (auto simp add: fuzz_getDataLoadCount_def split: sum.splits)
  from for_range_paired [where c = "fake_file_call ''getDataLoadCount''"
      and body = "load_fake_iteration E", OF load_fake_iteration_trace [of E] b] a
  show ?thesis by blast
qed

lemma days_edge_phase:
  assumes "fuzz_days_between E N w = Inr w'"
  shows "\<exists>w1 evs. for_range (nat N) (days_random_iteration E) w = Inr w1 \<and>
     trace w' = trace w1 @ evs \<and> paired (days_corpus (tick w1)) evs"
proof -
  from assms obtain w1 where
    a: "for_range (nat N) (days_random_iteration E) w = Inr w1" and
    b: "for_each (fst (days_edge_cases (tick w1))) (days_call E)
          (w1\<lparr>tick := snd (days_edge_cases (tick w1))\<rparr>) = Inr w'"
    by (auto simp add: fuzz_days_between_def Let_def split: sum.splits prod.splits)
  from for_each_paired [where c = "\<lambda>p. (''days_between'', [fst p, snd p])"
      and body = "days_call E", OF days_call_trace [of E] b]
  obtain evs where "trace w' = trace w1 @ evs"
    and "paired (map (\<lambda>p. (''days_between'', [fst p, snd p])) (fst (days_edge_cases (tick w1)))) evs"
    by auto
  moreover have "map (\<lambda>p. (''days_between'', [fst p, snd p])) (fst (days_edge_cases (tick w1)))
      = days_corpus (tick w1)"
    by (simp add: days_corpus_def case_prod_unfold)
  ultimately show ?thesis using a by auto
qed

lemma dirs_edge_phase:
  assumes "fuzz_getPythonFileCount E N w = Inr w'"
  shows "\<exists>w1 evs. for_range (nat N) (count_random_iteration E) w = Inr w1 \<and>
     trace w' = trace w1 @ evs \<and> paired (dirs_corpus E (tick w1)) evs"
proof -
  from assms obtain w1 where
    a: "for_range (nat N) (count_random_iteration E) w = Inr w1" and
    b: "for_each (fst (invalid_dirs E (tick w1))) (count_call E)
          (w1\<lparr>tick := snd (invalid_dirs E (tick w1))\<rparr>) = Inr w'"
    by (auto simp add: fuzz_getPythonFileCount_def Let_def split: sum.splits prod.splits)
  from for_each_paired [where c = "\<lambda>d. (''getPythonFileCount'', [d])"
      and body = "count_call E", OF count_call_trace [of E] b]
  obtain evs where "trace w' = trace w1 @ evs"
    and "paired (map (\<lambda>d. (''getPythonFileCount'', [d])) (fst (invalid_dirs E (tick w1)))) evs"
    by auto
  then show ?thesis using a by (auto simp add: dirs_corpus_def)
qed

section \<open>Exceptions that leave a campaign\<close>

lemma guarded_call_Inl:
  assumes "guarded_call w name args target okl errl = Inl a"
  shows "target (tick w) = Inl (fst a) \<and> \<not> exc_is_Exception (fst a)"
  using assms
  by (auto simp add: guarded_call_def invoke_def split: sum.splits if_splits)

lemma for_range_Inl:
  assumes step: "\<And>s a. body s = Inl a \<Longrightarrow> P a"
  shows "for_range n body s = Inl a \<Longrightarrow> P a"
proof (induction n arbitrary: s)
  case 0
  then show ?case by simp
next
  case (Suc n)
  then show ?case using step by (cases "body s") auto
qed

lemma for_each_Inl:
  assumes step: "\<And>x s a. body x s = Inl a \<Longrightarrow> P a"
  shows "for_each xs body s = Inl a \<Longrightarrow> P a"
proof (induction xs arbitrary: s)
  case Nil
  then show ?case by simp
next
  case (Cons x xs)
  then show ?case using step by (cases "body x s") auto
qed

lemma catchableD:
  assumes "catchable E"
  shows "getPythonParseObject E t a = Inl e \<Longrightarrow> exc_is_Exception e"
    and "checkLoggingPerData E t a b = Inl e \<Longrightarrow> exc_is_Exception e"
    and "days_between E t a b = Inl e \<Longrightarrow> exc_is_Exception e"
    and "getPythonFileCount E t a = Inl e \<Longrightarrow> exc_is_Exception e"
    and "getDataLoadCount E t a = Inl e \<Longrightarrow> exc_is_Exception e"
  using assms unfolding catchable_def by blast+

lemma parse_random_iteration_no_escape:
  "catchable E \<Longrightarrow> parse_random_iteration E w \<noteq> Inl a"
  unfolding parse_random_iteration_def Let_def
  by (auto split: prod.splits dest!: guarded_call_Inl dest: catchableD)

lemma parse_fake_iteration_no_escape:
  "catchable E \<Longrightarrow> parse_fake_iteration E w \<noteq> Inl a"
  unfolding parse_fake_iteration_def Let_def
  by (auto split: prod.splits dest!: guarded_call_Inl dest: catchableD)

lemma days_call_no_escape:
  "catchable E \<Longrightarrow> days_call E p w \<noteq> Inl a"
  unfolding days_call_def
  by (auto split: prod.splits dest!: guarded_call_Inl dest: catchableD)

lemma days_random_iteration_no_escape:
  "catchable E \<Longrightarrow> days_random_iteration E w \<noteq> Inl a"
  unfolding days_random_iteration_def Let_def
  by (auto split: prod.splits simp add: days_call_no_escape)

lemma count_random_iteration_no_escape:
  "catchable E \<Longrightarrow> count_random_iteration E w \<noteq> Inl a"
  unfolding count_random_iteration_def Let_def
  by (auto split: prod.splits dest!: guarded_call_Inl dest: catchableD)

lemma count_call_no_escape:
  "catchable E \<Longrightarrow> count_call E d w \<noteq> Inl a"
  unfolding count_call_def
  by (auto dest!: guarded_call_Inl dest: catchableD)

lemma load_random_iteration_no_escape:
  "catchable E \<Longrightarrow> load_random_iteration E w \<noteq> Inl a"
  unfolding load_random_iteration_def Let_def
  by (auto split: prod.splits dest!: guarded_call_Inl dest: catchableD)

lemma load_fake_iteration_no_escape:
  "catchable E \<Longrightarrow> load_fake_iteration E w \<noteq> Inl a"
  unfolding load_fake_iteration_def Let_def
  by (auto split: prod.splits dest!: guarded_call_Inl dest: catchableD)

lemma fuzz_getPythonParseObject_no_escape:
  assumes "catchable E"
  shows "fuzz_getPythonParseObject E N w \<noteq> Inl a"
proof
  assume "fuzz_getPythonParseObject E N w = Inl a"
  then have "for_range (nat N) (parse_random_iteration E) w = Inl a \<or>
     (\<exists>w1. for_range 5 (parse_fake_iteration E) w1 = Inl a)"
    by (auto simp add: fuzz_getPythonParseObject_def split: sum.splits)
  then show False
    using for_range_Inl [where body = "parse_random_iteration E" and P = "\<lambda>a. False"]
      for_range_Inl [where body = "parse_fake_iteration E" and P = "\<lambda>a. False"]
      parse_random_iteration_no_escape [OF assms] parse_fake_iteration_no_escape [OF assms]
    by blast
qed

lemma fuzz_days_between_no_escape:
  assumes "catchable E"
  shows "fuzz_days_between E N w \<noteq> Inl a"
proof
  assume "fuzz_days_between E N w = Inl a"
  then have "for_range (nat N) (days_random_iteration E) w = Inl a \<or>
     (\<exists>xs w1. for_each xs (days_call E) w1 = Inl a)"
    by (auto simp add: fuzz_days_between_def Let_def split: sum.splits prod.splits)
  then show False
    using for_range_Inl [where body = "days_random_iteration E" and P = "\<lambda>a. False"]
      for_each_Inl [where body = "days_call E" and P = "\<lambda>a. False"]
      days_random_iteration_no_escape [OF assms] days_call_no_escape [OF assms]
    by blast
qed

lemma fuzz_getPythonFileCount_no_escape:
  assumes "catchable E"
  shows "fuzz_getPythonFileCount E N w \<noteq> Inl a"
proof
  assume "fuzz_getPythonFileCount E N w = Inl a"
  then have "for_range (nat N) (count_random_iteration E) w = Inl a \<or>
     (\<exists>xs w1. for_each xs (count_call E) w1 = Inl a)"
    by (auto simp add: fuzz_getPythonFileCount_def Let_def split: sum.splits prod.splits)
  then show False
    using for_range_Inl [where body = "count_random_iteration E" and P = "\<lambda>a. False"]
      for_each_Inl [where body = "count_call E" and P = "\<lambda>a. False"]
      count_random_iteration_no_escape [OF assms] count_call_no_escape [OF assms]
    by blast
qed

lemma fuzz_getDataLoadCount_no_escape:
  assumes "catchable E"
  shows "fuzz_getDataLoadCount E N w \<noteq> Inl a"
proof
  assume "fuzz_getDataLoadCount E N w = Inl a"
  then have "for_range (nat N) (load_random_iteration E) w = Inl a \<or>
     (\<exists>w1. for_range 5 (load_fake_iteration E) w1 = Inl a)"
    by (auto simp add: fuzz_getDataLoadCount_def split: sum.splits)
  then show False
    using for_range_Inl [where body = "load_random_iteration E" and P = "\<lambda>a. False"]
      for_range_Inl [where body = "load_fake_iteration E" and P = "\<lambda>a. False"]
      load_random_iteration_no_escape [OF assms] load_fake_iteration_no_escape [OF assms]
    by blast
qed

lemma logging_iteration_Inl:
  assumes c: "catchable E" and i: "logging_iteration E s = Inl a"
  shows "fst a = UnboundLocalError ''name_to_track'' \<and> snd s = None \<and>
         reporter (snd a) = reporter (fst s) \<and>
         (\<exists>t p e. getPythonParseObject E t p = Inl e)"
  using i catchableD [OF c]
  unfolding logging_iteration_def Let_def invoke_def logging_handler_def
  by (auto split: prod.splits sum.splits option.splits if_splits)

lemma logging_iteration_binds:
  "logging_iteration E s = Inr s' \<Longrightarrow> snd s' \<noteq> None"
  unfolding logging_iteration_def Let_def invoke_def logging_handler_def
  by (auto split: prod.splits sum.splits option.splits if_splits)

lemma fuzz_checkLoggingPerData_Inl:
  assumes c: "catchable E" and i: "fuzz_checkLoggingPerData E N w = Inl a"
  shows "fst a = UnboundLocalError ''name_to_track'' \<and> (\<exists>t p e. getPythonParseObject E t p = Inl e)"
proof -
  from i have "for_range (nat N) (logging_iteration E) (w, None) = Inl a"
    by (auto simp add: fuzz_checkLoggingPerData_def split: sum.splits)
  from for_range_Inl [where body = "logging_iteration E" and
      P = "\<lambda>a. fst a = UnboundLocalError ''name_to_track'' \<and> (\<exists>t p e. getPythonParseObject E t p = Inl e)", OF _ this]
    logging_iteration_Inl [OF c]
  show ?thesis by blast
qed

text \<open>
  When the operations raise instances of \<^verbatim>\<open>Exception\<close> only, the one exception that can
  leave the campaigns is the \<^verbatim>\<open>UnboundLocalError\<close> of the handler of campaign 2.
\<close>

lemma only_the_unbound_name_escapes:
  assumes c: "catchable E" and i: "run_campaigns E N w = Inl (e, w')"
  shows "e = UnboundLocalError ''name_to_track''"
proof -
  from i have "(\<exists>w1. fuzz_checkLoggingPerData E N w1 = Inl (e, w'))"
    using fuzz_getPythonParseObject_no_escape [OF c] fuzz_days_between_no_escape [OF c]
      fuzz_getPythonFileCount_no_escape [OF c] fuzz_getDataLoadCount_no_escape [OF c]
    by (auto simp add: run_campaigns_def split: sum.splits)
  with fuzz_checkLoggingPerData_Inl [OF c] show ?thesis by fastforce
qed

lemma run_campaigns_completes:
  assumes c: "catchable E" and p: "parser_returns E \<or> N \<le> 0"
  shows "\<exists>w'. run_campaigns E N w = Inr w'"
proof (cases "run_campaigns E N w")
  case (Inr w')
  then show ?thesis by blast
next
  case (Inl a)
  then have "\<exists>w1. fuzz_checkLoggingPerData E N w1 = Inl a"
    using fuzz_getPythonParseObject_no_escape [OF c] fuzz_days_between_no_escape [OF c]
      fuzz_getPythonFileCount_no_escape [OF c] fuzz_getDataLoadCount_no_escape [OF c]
    by (auto simp add: run_campaigns_def split: sum.splits)
  then obtain w1 where f: "fuzz_checkLoggingPerData E N w1 = Inl a" by blast
  from fuzz_checkLoggingPerData_Inl [OF c f]
  obtain t q e where "getPythonParseObject E t q = Inl e" by blast
  then have "\<not> parser_returns E"
    unfolding parser_returns_def by (metis Inl_Inr_False)
  with p have "N \<le> 0" by simp
  then have "fuzz_checkLoggingPerData E N w1 = Inr w1"
    by (simp add: fuzz_checkLoggingPerData_def)
  with f show ?thesis by simp
qed

text \<open>
  A failure that is an instance of \<^verbatim>\<open>Exception\<close> and is true is caught by the shared
  block and logged with its type name and message.
\<close>

lemma guarded_call_catches:
  assumes "target (tick w) = Inl e" "exc_is_Exception e" "exc_truthy e"
  shows "\<exists>w'. guarded_call w name args target okl errl = Inr w' \<and>
     test_count (reporter w') = test_count (reporter w) + 1 \<and>
     crash_count (reporter w') = crash_count (reporter w) + 1 \<and>
     bugs_found (reporter w') = bugs_found (reporter w) @
       [\<lparr>bug_method = name, bug_input = take 100 errl, bug_error_type = exc_type e,
         bug_error_msg = exc_msg e, bug_traceback = exc_traceback e\<rparr>]"
  using assms
  by (simp add: guarded_call_def invoke_def report_test_def log_test_def Let_def)

lemma logging_iteration_unbound:
  assumes "\<And>t p. \<exists>e. getPythonParseObject E t p = Inl e \<and> exc_is_Exception e"
  shows "\<exists>w'. logging_iteration E (w, None) = Inl (UnboundLocalError ''name_to_track'', w') \<and>
           reporter w' = reporter w"
proof -
  obtain r t1 where a: "generate_random_python_code E (tick w) = (r, t1)"
    by (cases "generate_random_python_code E (tick w)")
  obtain code t2 where b: "random_choice E (logging_templates r) t1 = (code, t2)"
    by (cases "random_choice E (logging_templates r) t1")
  obtain temp_file t3 where c: "create_temp_python_file E code t2 = (temp_file, t3)"
    by (cases "create_temp_python_file E code t2")
  from assms obtain e where e: "getPythonParseObject E t3 (PStr temp_file) = Inl e"
    "exc_is_Exception e" by blast
  show ?thesis
    by (simp add: logging_iteration_def a b c e invoke_def logging_handler_def)
qed

lemma first_parser_failure_escapes:
  assumes "\<And>t p. \<exists>e. getPythonParseObject E t p = Inl e \<and> exc_is_Exception e" and "0 < N"
  shows "\<exists>w'. fuzz_checkLoggingPerData E N w = Inl (UnboundLocalError ''name_to_track'', w') \<and>
           reporter w' = reporter w"
proof -
  from \<open>0 < N\<close> obtain n where n: "nat N = Suc n" by (cases "nat N") auto
  from logging_iteration_unbound [OF assms(1), of w] show ?thesis
    by (auto simp add: fuzz_checkLoggingPerData_def n)
qed

lemma catchable_failing_parser_env: "catchable failing_parser_env"
  by (simp add: catchable_def failing_parser_env_def quiet_env_def OSError_def builtin_error_def)

lemma catchable_quiet_env: "catchable quiet_env"
  by (simp add: catchable_def quiet_env_def)

lemma parser_returns_quiet_env: "parser_returns quiet_env"
  by (simp add: parser_returns_def quiet_env_def)

section \<open>Evaluations at the concrete inputs\<close>

lemma parse_zero:
  "parse_iterations I [ustr ''fuzz.py'', ustr ''0''] = Inr (0, [''Using custom iteration count: 0''])"
  by (simp add: parse_iterations_def py_int_def transform_decimal_and_space_def strip_def
      is_space_def unsigned_literal_def is_digit_def digit_value_def too_many_digits_def
      str_int_def str_nat.simps digit_char_def ustr_chars)

lemma parse_one:
  "parse_iterations I [ustr ''fuzz.py'', ustr ''1''] = Inr (1, [''Using custom iteration count: 1''])"
  by (simp add: parse_iterations_def py_int_def transform_decimal_and_space_def strip_def
      is_space_def unsigned_literal_def is_digit_def digit_value_def too_many_digits_def
      str_int_def str_nat.simps digit_char_def ustr_chars)

lemma interrupted_first_call:
  "fuzz_getPythonParseObject interrupted_env 0 Fuzzer_init =
     Inl (KeyboardInterrupt,
          \<lparr>reporter = FuzzReporter_init, tick = 2,
           trace = [Invoked ''getPythonParseObject'' [PStr ''/nonexistent/.py'']]\<rparr>)"
proof -
  have g: "generate_random_string interrupted_env None 0 = ([], 1)"
    by (simp add: generate_random_string_def randint_def random_choices_def
        interrupted_env_def quiet_env_def)
  have k: "\<not> exc_is_Exception KeyboardInterrupt"
    by (simp add: KeyboardInterrupt_def)
  have p: "getPythonParseObject interrupted_env t a = Inl KeyboardInterrupt" for t a
    by (simp add: interrupted_env_def)
  have "parse_fake_iteration interrupted_env Fuzzer_init =
     Inl (KeyboardInterrupt,
          \<lparr>reporter = FuzzReporter_init, tick = 2,
           trace = [Invoked ''getPythonParseObject'' [PStr ''/nonexistent/.py'']]\<rparr>)"
    by (simp add: parse_fake_iteration_def Fuzzer_init_def g guarded_call_def invoke_def p k)
  then show ?thesis
    by (simp add: fuzz_getPythonParseObject_def numeral_eq_Suc)
qed

lemma exiting_second_call:
  "\<exists>w. fuzz_getPythonParseObject exiting_env 0 Fuzzer_init = Inl (SystemExit 0, w) \<and>
        test_count (reporter w) = 1 \<and> crash_count (reporter w) = 1"
proof -
  have g: "generate_random_string exiting_env None t = ([], Suc t)" for t
    by (simp add: generate_random_string_def randint_def random_choices_def
        exiting_env_def quiet_env_def)
  have x: "exc_is_Exception OSError" "exc_truthy OSError"
    by (simp_all add: OSError_def builtin_error_def)
  have k: "\<not> exc_is_Exception (SystemExit 0)"
    by (simp add: SystemExit_def)
  have p1: "getPythonParseObject exiting_env (Suc 0) a = Inl OSError" for a
    by (simp add: exiting_env_def)
  have p3: "getPythonParseObject exiting_env (Suc (Suc (Suc 0))) a = Inl (SystemExit 0)" for a
    by (simp add: exiting_env_def)
  define w1 where "w1 = report_test
      (Fuzzer_init\<lparr>tick := Suc (Suc 0),
         trace := [Invoked ''getPythonParseObject'' [PStr ''/nonexistent/.py'']]\<rparr>)
      ''getPythonParseObject'' ''file: /nonexistent/.py'' PNone (Some OSError)"
  have i1: "parse_fake_iteration exiting_env Fuzzer_init = Inr w1"
    by (simp add: parse_fake_iteration_def Fuzzer_init_def g guarded_call_def invoke_def p1 x
        w1_def Let_def)
  have t1: "tick w1 = Suc (Suc 0)" by (simp add: w1_def)
  have i2: "parse_fake_iteration exiting_env w1 =
      Inl (SystemExit 0,
           w1\<lparr>tick := Suc (Suc (Suc (Suc 0))),
               trace := trace w1 @ [Invoked ''getPythonParseObject'' [PStr ''/nonexistent/.py'']]\<rparr>)"
    by (simp add: parse_fake_iteration_def t1 g guarded_call_def invoke_def p3 k Let_def)
  have c: "test_count (reporter w1) = 1" "crash_count (reporter w1) = 1"
    using x by (simp_all add: w1_def Fuzzer_init_def FuzzReporter_init_def log_test_def)
  have "fuzz_getPythonParseObject exiting_env 0 Fuzzer_init =
      Inl (SystemExit 0,
           w1\<lparr>tick := Suc (Suc (Suc (Suc 0))),
               trace := trace w1 @ [Invoked ''getPythonParseObject'' [PStr ''/nonexistent/.py'']]\<rparr>)"
    by (simp add: fuzz_getPythonParseObject_def numeral_eq_Suc i1 i2)
  with c show ?thesis by simp
qed

lemma write_py_files_numeral:
  "write_py_files E (numeral k) t =
     write_py_files E (pred_numeral k) (snd (generate_random_python_code E t))"
  by (simp add: numeral_eq_Suc)

lemma write_other_files_numeral:
  "write_other_files E (numeral k) t =
     (let (ext, t1) = random_choice E [''.txt'', ''.md'', ''.json'', ''.yml''] t
      in write_other_files E (pred_numeral k) (snd (generate_random_string E None t1)))"
  by (simp add: numeral_eq_Suc)

lemmas generator_defs =
  randint_def random_choice_def random_choices_def generate_random_string_def
  generate_random_python_code_def python_templates_def create_temp_python_file_def
  Let_def

lemma populate_three_two_one:
  "populate_directory three_two_one_env (Suc (tick Fuzzer_init)) = ((3, 2, 1), 20)"
proof -
  have r1: "randint three_two_one_env 0 10 (Suc 0) = (3, 2)"
    by (simp add: randint_def three_two_one_env_def)
  have w1: "write_py_files three_two_one_env 3 2 = 14"
    by (simp add: write_py_files_numeral generator_defs three_two_one_env_def)
  have r2: "randint three_two_one_env 0 5 14 = (2, 15)"
    by (simp add: randint_def three_two_one_env_def)
  have w2: "write_other_files three_two_one_env 2 15 = 19"
    by (simp add: write_other_files_numeral generator_defs three_two_one_env_def)
  have r3: "randint three_two_one_env 0 3 19 = (1, 20)"
    by (simp add: randint_def three_two_one_env_def)
  show ?thesis
    by (simp add: populate_directory_def Fuzzer_init_def r1 w1 r2 w2 r3)
qed

section \<open>Fault isolation\<close>

text \<open>
  C1, at a failing input. The claim says that every failure raised by an operation under
  test is caught, logged with its kind and message, and never leaves the campaign. Take
  a parser that fails with \<^verbatim>\<open>OSError\<close> (an instance of \<^verbatim>\<open>Exception\<close>) and one random
  iteration. In \<^verbatim>\<open>fuzz_checkLoggingPerData\<close> the first call of the parser raises before
  \<^verbatim>\<open>name_to_track\<close> is assigned; the handler reads it, \<^verbatim>\<open>UnboundLocalError\<close> leaves the
  campaign with nothing logged for the failure, and the process ends on that uncaught
  exception.
\<close>

theorem handler_reads_unbound_name:
  "exc_is_Exception OSError \<and>
   map_sum (\<lambda>(e, w). (e, reporter w)) (\<lambda>w. ())
     (fuzz_checkLoggingPerData failing_parser_env 1 Fuzzer_init) =
     Inl (UnboundLocalError ''name_to_track'', FuzzReporter_init) \<and>
   fst (fuzz_script Imported cpython failing_parser_env [ustr ''fuzz.py'', ustr ''1'']) =
     Uncaught (UnboundLocalError ''name_to_track'')"
proof -
  have x: "exc_is_Exception OSError"
    by (simp add: OSError_def builtin_error_def)
  have f: "\<exists>e. getPythonParseObject failing_parser_env t p = Inl e \<and> exc_is_Exception e" for t p
    using x by (simp add: failing_parser_env_def)
  from first_parser_failure_escapes [OF f, of 1 Fuzzer_init]
  have 1: "map_sum (\<lambda>(e, w). (e, reporter w)) (\<lambda>w. ())
     (fuzz_checkLoggingPerData failing_parser_env 1 Fuzzer_init) =
     Inl (UnboundLocalError ''name_to_track'', FuzzReporter_init)"
    by (auto simp add: Fuzzer_init_def)
  obtain w1 where c1: "fuzz_getPythonParseObject failing_parser_env 1 Fuzzer_init = Inr w1"
    using fuzz_getPythonParseObject_no_escape [OF catchable_failing_parser_env, of 1 Fuzzer_init]
    by (cases "fuzz_getPythonParseObject failing_parser_env 1 Fuzzer_init") auto
  from first_parser_failure_escapes [OF f, of 1 w1] obtain w' where
    c2: "fuzz_checkLoggingPerData failing_parser_env 1 w1 =
           Inl (UnboundLocalError ''name_to_track'', w')" by auto
  have 2: "fst (fuzz_script Imported cpython failing_parser_env [ustr ''fuzz.py'', ustr ''1'']) =
     Uncaught (UnboundLocalError ''name_to_track'')"
    by (simp add: fuzz_script_def main_def parse_one run_all_fuzzing_def run_campaigns_def c1 c2
        interpreter_end_def UnboundLocalError_def builtin_error_def)
  from x 1 2 show ?thesis by blast
qed

section \<open>The total of a run\<close>

lemma logged_more_counters:
  assumes "logged_more r k r'"
  shows "test_count r' = test_count r + int k"
    and "0 \<le> crash_count r \<Longrightarrow> crash_count r \<le> test_count r \<Longrightarrow>
         0 \<le> crash_count r' \<and> crash_count r' \<le> test_count r'"
  using assms log_calls_test_count log_calls_bounds
  unfolding logged_more_def by auto

lemma run_campaigns_test_count:
  assumes "run_campaigns E N w = Inr w'"
  shows "test_count (reporter w') = test_count (reporter w) + 5 * max 0 N + 24"
proof -
  have "int (5 * nat N + 24) = 5 * max 0 N + 24" by auto
  with logged_more_counters(1) [OF run_campaigns_logged [OF assms]] show ?thesis by simp
qed

lemma run_campaigns_from_init:
  assumes "run_campaigns E N Fuzzer_init = Inr w"
  shows "test_count (reporter w) = 5 * max 0 N + 24"
    and "0 \<le> crash_count (reporter w)"
    and "crash_count (reporter w) \<le> test_count (reporter w)"
proof -
  have i: "reporter Fuzzer_init = FuzzReporter_init"
    "test_count FuzzReporter_init = 0" "crash_count FuzzReporter_init = 0"
    by (simp_all add: Fuzzer_init_def FuzzReporter_init_def)
  show "test_count (reporter w) = 5 * max 0 N + 24"
    using run_campaigns_test_count [OF assms] i by simp
  from logged_more_counters(2) [OF run_campaigns_logged [OF assms]] i
  show "0 \<le> crash_count (reporter w)" "crash_count (reporter w) \<le> test_count (reporter w)"
    by simp_all
qed

lemma run_all_fuzzing_Inr:
  "run_all_fuzzing E N Fuzzer_init = Inr (w, rep) \<longleftrightarrow>
   run_campaigns E N Fuzzer_init = Inr w \<and> generate_report (reporter w) = Inr rep"
  by (auto simp add: run_all_fuzzing_def split: sum.splits)

lemma report_after_campaigns:
  assumes "run_campaigns E N Fuzzer_init = Inr w"
  shows "generate_report (reporter w) =
     Inr \<lparr>rep_total = test_count (reporter w), rep_failures = crash_count (reporter w),
          rep_success_rate = of_int (test_count (reporter w) - crash_count (reporter w)) /
                              of_int (test_count (reporter w)) * 100,
          rep_bugs = bugs_found (reporter w)\<rparr>"
proof -
  have "test_count (reporter w) \<noteq> 0"
    using run_campaigns_from_init(1) [OF assms] by (simp add: max_def)
  then show ?thesis by (simp add: generate_report_def)
qed

lemma run_all_fuzzing_completes:
  assumes "catchable E" "parser_returns E \<or> N \<le> 0"
  shows "\<exists>w rep. run_all_fuzzing E N Fuzzer_init = Inr (w, rep)"
proof -
  from run_campaigns_completes [OF assms] obtain w where
    w: "run_campaigns E N Fuzzer_init = Inr w" by blast
  from report_after_campaigns [OF w] w show ?thesis
    unfolding run_all_fuzzing_Inr by blast
qed

text \<open>
  C4, as the code has it. The claim gives the total as the sum over the campaigns of
  \<open>N\<close> plus the size of the corpus, for every run. With \<open>N = -1\<close> the loops over
  \<^verbatim>\<open>range(iterations)\<close> do not run and the total is 24, not \<open>5 * (-1) + 24\<close>; and a run in
  which an operation is interrupted from the keyboard ends before the report, here with
  a total of 0.
\<close>

theorem total_of_a_run_counterexample:
  "map_sum fst (\<lambda>(w, rep). rep_total rep) (run_all_fuzzing quiet_env (- 1) Fuzzer_init) = Inr 24 \<and>
   (24 :: int) \<noteq> 5 * (- 1) + 24 \<and>
   map_sum (\<lambda>(e, w). (exc_type e, test_count (reporter w))) (\<lambda>(w, rep). rep_total rep)
     (run_all_fuzzing interrupted_env 0 Fuzzer_init) = Inl (''KeyboardInterrupt'', 0)"
proof -
  from run_all_fuzzing_completes [OF catchable_quiet_env, of "- 1"]
  obtain w rep where r: "run_all_fuzzing quiet_env (- 1) Fuzzer_init = Inr (w, rep)" by auto
  then have c: "run_campaigns quiet_env (- 1) Fuzzer_init = Inr w"
    and g: "generate_report (reporter w) = Inr rep"
    unfolding run_all_fuzzing_Inr by simp_all
  from g report_after_campaigns [OF c] run_campaigns_from_init(1) [OF c]
  have "rep_total rep = 24" by auto
  then have 1: "map_sum fst (\<lambda>(w, rep). rep_total rep)
      (run_all_fuzzing quiet_env (- 1) Fuzzer_init) = Inr 24"
    by (simp add: r)
  have 2: "map_sum (\<lambda>(e, w). (exc_type e, test_count (reporter w))) (\<lambda>(w, rep). rep_total rep)
     (run_all_fuzzing interrupted_env 0 Fuzzer_init) = Inl (''KeyboardInterrupt'', 0)"
    by (simp add: run_all_fuzzing_def run_campaigns_def interrupted_first_call
        KeyboardInterrupt_def FuzzReporter_init_def)
  from 1 2 show ?thesis by simp
qed

text \<open>
  C4, amended: in every run that reaches the report, the total that the report shows is
  the sum over the five campaigns of the number of random iterations, \<open>max 0 N\<close>, plus
  the size of that campaign's edge-case corpus (5, 0, 8, 6 and 5), which is
  \<open>5 * N + 24\<close> when \<open>N\<close> is not negative.
\<close>

theorem total_of_a_run:
  assumes "run_all_fuzzing E N Fuzzer_init = Inr (w, rep)"
  shows "rep_total rep =
           (max 0 N + 5) + (max 0 N + 0) + (max 0 N + 8) + (max 0 N + 6) + (max 0 N + 5) \<and>
         rep_total rep = test_count (reporter w) \<and>
         (0 \<le> N \<longrightarrow> rep_total rep = 5 * N + 24) \<and>
         length (fst (days_edge_cases t)) = 8 \<and> length (fst (invalid_dirs E t)) = 6"
proof -
  from assms have c: "run_campaigns E N Fuzzer_init = Inr w"
    and g: "generate_report (reporter w) = Inr rep"
    unfolding run_all_fuzzing_Inr by simp_all
  from g report_after_campaigns [OF c] have "rep_total rep = test_count (reporter w)"
    by auto
  moreover note run_campaigns_from_init(1) [OF c]
  moreover have "length (fst (days_edge_cases t)) = 8"
    by (simp add: days_edge_cases_def)
  moreover have "length (fst (invalid_dirs E t)) = 6"
    by (simp add: invalid_dirs_def Let_def split: prod.splits)
  ultimately show ?thesis by (simp add: max_def)
qed

theorem total_of_a_run_witness:
  "(0 :: int) \<le> 2 \<and>
   map_sum fst (\<lambda>(w, rep). rep_total rep) (run_all_fuzzing quiet_env 2 Fuzzer_init) = Inr 34"
proof -
  from run_all_fuzzing_completes [OF catchable_quiet_env, of 2] parser_returns_quiet_env
  obtain w rep where r: "run_all_fuzzing quiet_env 2 Fuzzer_init = Inr (w, rep)" by blast
  from total_of_a_run [OF r] show ?thesis by (simp add: r)
qed

section \<open>The success rate\<close>

lemma logged_more_nonempty:
  assumes "logged_more FuzzReporter_init k r" "0 < k"
  shows "\<exists>cs. cs \<noteq> [] \<and> r = log_calls FuzzReporter_init cs \<and> length cs = k"
  using assms unfolding logged_more_def by auto

text \<open>
  C2, as the code has it. The claim says that the rate is computed only when the total
  is positive. The division of \<^verbatim>\<open>generate_report\<close> has no guard: on a reporter that has
  logged nothing it raises \<^verbatim>\<open>ZeroDivisionError\<close>.
\<close>

theorem report_on_fresh_reporter_counterexample:
  "test_count FuzzReporter_init = 0 \<and> generate_report FuzzReporter_init = Inl ZeroDivisionError"
  by (simp add: FuzzReporter_init_def generate_report_def)

text \<open>
  C2, amended: \<^verbatim>\<open>generate_report\<close> divides by the total without a guard of its own.
  Whenever at least one outcome has been logged, the rate is
  \<open>(total - failures) / total * 100\<close> and lies between 0 and 100 inclusive; and every
  run whose campaigns complete has logged at least 24 outcomes when the report is made,
  so the report is produced, with a rate between 0 and 100.
\<close>

theorem success_rate:
  "(cs \<noteq> [] \<longrightarrow>
      (\<exists>rep. generate_report (log_calls FuzzReporter_init cs) = Inr rep \<and>
         rep_total rep = int (length cs) \<and>
         rep_success_rate rep =
           of_int (rep_total rep - rep_failures rep) / of_int (rep_total rep) * 100 \<and>
         0 \<le> rep_success_rate rep \<and> rep_success_rate rep \<le> 100)) \<and>
   (run_campaigns E N Fuzzer_init = Inr w \<longrightarrow>
      (\<exists>rep. run_all_fuzzing E N Fuzzer_init = Inr (w, rep) \<and>
         24 \<le> rep_total rep \<and>
         rep_success_rate rep =
           of_int (rep_total rep - rep_failures rep) / of_int (rep_total rep) * 100 \<and>
         0 \<le> rep_success_rate rep \<and> rep_success_rate rep \<le> 100))"
proof (intro conjI impI)
  assume "cs \<noteq> []"
  then show "\<exists>rep. generate_report (log_calls FuzzReporter_init cs) = Inr rep \<and>
         rep_total rep = int (length cs) \<and>
         rep_success_rate rep =
           of_int (rep_total rep - rep_failures rep) / of_int (rep_total rep) * 100 \<and>
         0 \<le> rep_success_rate rep \<and> rep_success_rate rep \<le> 100"
    by (rule rate_after_calls)
next
  assume r: "run_campaigns E N Fuzzer_init = Inr w"
  have "logged_more FuzzReporter_init (5 * nat N + 24) (reporter w)"
    using run_campaigns_logged [OF r] by (simp add: Fuzzer_init_def)
  from logged_more_nonempty [OF this] obtain ds where
    ds: "ds \<noteq> []" "reporter w = log_calls FuzzReporter_init ds" "length ds = 5 * nat N + 24"
    by auto
  from rate_after_calls [OF ds(1)] obtain rep where
    rep: "generate_report (log_calls FuzzReporter_init ds) = Inr rep"
      "rep_total rep = int (length ds)"
      "rep_success_rate rep =
           of_int (rep_total rep - rep_failures rep) / of_int (rep_total rep) * 100"
      "0 \<le> rep_success_rate rep" "rep_success_rate rep \<le> 100"
    by blast
  have "run_all_fuzzing E N Fuzzer_init = Inr (w, rep)"
    using r rep(1) ds(2) by (simp add: run_all_fuzzing_Inr)
  moreover have "24 \<le> rep_total rep" using rep(2) ds(3) by simp
  ultimately show "\<exists>rep. run_all_fuzzing E N Fuzzer_init = Inr (w, rep) \<and>
         24 \<le> rep_total rep \<and>
         rep_success_rate rep =
           of_int (rep_total rep - rep_failures rep) / of_int (rep_total rep) * 100 \<and>
         0 \<le> rep_success_rate rep \<and> rep_success_rate rep \<le> 100"
    using rep(3,4,5) by blast
qed

theorem success_rate_witness:
  "example_calls \<noteq> [] \<and>
   map_sum exc_type rep_success_rate
     (generate_report (log_calls FuzzReporter_init example_calls)) = Inr 50 \<and>
   (\<exists>w rep. run_all_fuzzing quiet_env 0 Fuzzer_init = Inr (w, rep) \<and> 24 \<le> rep_total rep)"
proof -
  have ne: "example_calls \<noteq> []" by (simp add: example_calls_def)
  have ev: "map_sum exc_type rep_success_rate
     (generate_report (log_calls FuzzReporter_init example_calls)) = Inr 50"
    by (simp add: example_calls_def FuzzReporter_init_def log_test_def builtin_error_def
        generate_report_def)
  from run_campaigns_completes [OF catchable_quiet_env, of 0 Fuzzer_init]
  obtain w where r: "run_campaigns quiet_env 0 Fuzzer_init = Inr w" by auto
  from success_rate [of example_calls quiet_env 0 w] ne ev r
  show ?thesis by blast
qed

section \<open>The edge cases\<close>

text \<open>
  C5, as the code has it. The claim says that in every run every edge case is invoked
  and logged exactly once. The handlers catch \<^verbatim>\<open>Exception\<close> only: when the first call on
  a nonexistent path is interrupted from the keyboard, that edge case is invoked but
  not logged, and no later edge case is invoked at all.
\<close>

theorem edge_cases_once_counterexample:
  "run_campaigns interrupted_env 0 Fuzzer_init =
     Inl (KeyboardInterrupt,
          \<lparr>reporter = FuzzReporter_init, tick = 2,
           trace = [Invoked ''getPythonParseObject'' [PStr ''/nonexistent/.py'']]\<rparr>)"
  by (simp add: run_campaigns_def interrupted_first_call)

text \<open>
  C5, amended: in every run in which no exception leaves a campaign, whatever the
  number \<open>N\<close> of random iterations, each campaign with an edge-case corpus ends, after its
  random iterations, with exactly one invocation followed by one \<^verbatim>\<open>log_test\<close> call for
  each entry of the corpus, in order, and nothing else: five nonexistent paths for the
  parser, the eight pairs of dates, the six invalid directories, five nonexistent paths
  for the data-load counter.
\<close>

theorem edge_cases_once:
  assumes "run_campaigns E N w = Inr w'"
  shows "\<exists>w1 w2 w3 w4 a1 a3 a4 a5 e1 e3 e4 e5 rs1 rs5.
     fuzz_getPythonParseObject E N w = Inr w1 \<and>
     fuzz_checkLoggingPerData E N w1 = Inr w2 \<and>
     fuzz_days_between E N w2 = Inr w3 \<and>
     fuzz_getPythonFileCount E N w3 = Inr w4 \<and>
     fuzz_getDataLoadCount E N w4 = Inr w' \<and>
     for_range (nat N) (parse_random_iteration E) w = Inr a1 \<and> trace w1 = trace a1 @ e1 \<and>
     length rs1 = 5 \<and> paired (map (fake_file_call ''getPythonParseObject'') rs1) e1 \<and>
     for_range (nat N) (days_random_iteration E) w2 = Inr a3 \<and> trace w3 = trace a3 @ e3 \<and>
     paired (days_corpus (tick a3)) e3 \<and> length (days_corpus (tick a3)) = 8 \<and>
     for_range (nat N) (count_random_iteration E) w3 = Inr a4 \<and> trace w4 = trace a4 @ e4 \<and>
     paired (dirs_corpus E (tick a4)) e4 \<and> length (dirs_corpus E (tick a4)) = 6 \<and>
     for_range (nat N) (load_random_iteration E) w4 = Inr a5 \<and> trace w' = trace a5 @ e5 \<and>
     length rs5 = 5 \<and> paired (map (fake_file_call ''getDataLoadCount'') rs5) e5"
proof -
  from assms obtain w1 w2 w3 w4 where
    c1: "fuzz_getPythonParseObject E N w = Inr w1" and
    c2: "fuzz_checkLoggingPerData E N w1 = Inr w2" and
    c3: "fuzz_days_between E N w2 = Inr w3" and
    c4: "fuzz_getPythonFileCount E N w3 = Inr w4" and
    c5: "fuzz_getDataLoadCount E N w4 = Inr w'"
    by (auto simp add: run_campaigns_def split: sum.splits)
  from parse_edge_phase [OF c1] obtain a1 rs1 e1 where
    p1: "for_range (nat N) (parse_random_iteration E) w = Inr a1" "length rs1 = 5"
      "trace w1 = trace a1 @ e1" "paired (map (fake_file_call ''getPythonParseObject'') rs1) e1"
    by blast
  from days_edge_phase [OF c3] obtain a3 e3 where
    p3: "for_range (nat N) (days_random_iteration E) w2 = Inr a3"
      "trace w3 = trace a3 @ e3" "paired (days_corpus (tick a3)) e3"
    by blast
  from dirs_edge_phase [OF c4] obtain a4 e4 where
    p4: "for_range (nat N) (count_random_iteration E) w3 = Inr a4"
      "trace w4 = trace a4 @ e4" "paired (dirs_corpus E (tick a4)) e4"
    by blast
  from load_edge_phase [OF c5] obtain a5 rs5 e5 where
    p5: "for_range (nat N) (load_random_iteration E) w4 = Inr a5" "length rs5 = 5"
      "trace w' = trace a5 @ e5" "paired (map (fake_file_call ''getDataLoadCount'') rs5) e5"
    by blast
  have l3: "length (days_corpus (tick a3)) = 8"
    by (simp add: days_corpus_def days_edge_cases_def)
  have l4: "length (dirs_corpus E (tick a4)) = 6"
    by (simp add: dirs_corpus_def invalid_dirs_def Let_def split: prod.splits)
  from c1 c2 c3 c4 c5 p1 p3 p4 p5 l3 l4 show ?thesis by blast
qed

theorem edge_cases_once_witness:
  "\<exists>w' (a5 :: world) e5 rs5. run_campaigns quiet_env 3 Fuzzer_init = Inr w' \<and>
     trace w' = trace a5 @ e5 \<and> length rs5 = 5 \<and>
     paired (map (fake_file_call ''getDataLoadCount'') rs5) e5"
proof -
  from run_campaigns_completes [OF catchable_quiet_env, of 3 Fuzzer_init] parser_returns_quiet_env
  obtain w' where r: "run_campaigns quiet_env 3 Fuzzer_init = Inr w'" by blast
  from edge_cases_once [OF r] r show ?thesis by blast
qed

section \<open>The exit status\<close>

lemma parse_iterations_total: "\<exists>n out. parse_iterations I argv = Inr (n, out)"
  using py_int_cases [of I "argv ! 1"] ValueError_type
  by (auto simp add: parse_iterations_def)

lemma main_exit:
  assumes "parse_iterations I argv = Inr (n, out)"
    and r: "run_all_fuzzing E n Fuzzer_init = Inr (w, rep)"
  shows "0 \<le> crash_count (reporter w) \<and>
       fuzz_script Imported I E argv =
         (if crash_count (reporter w) = 0 then Exit 0 else Exit 1, Some w)"
proof -
  from r have c: "run_campaigns E n Fuzzer_init = Inr w"
    unfolding run_all_fuzzing_Inr by simp
  have nn: "0 \<le> crash_count (reporter w)" by (rule run_campaigns_from_init(2) [OF c])
  then show ?thesis
    using assms by (auto simp add: fuzz_script_def main_def)
qed

lemma main_escape:
  assumes "parse_iterations I argv = Inr (n, out)"
    and "run_all_fuzzing E n Fuzzer_init = Inl (x, w')"
  shows "fuzz_script Imported I E argv = (interpreter_end x, Some w')"
  using assms by (simp add: fuzz_script_def main_def)

lemma interpreter_end_Exit: "interpreter_end x = Exit s \<longleftrightarrow> exc_exit_status x = Some s"
  by (simp add: interpreter_end_def split: option.splits)

text \<open>
  C7, as the code has it. The claim says that the exit status is 0 exactly when no
  failure was logged, and 1 when one or more were. The handlers catch \<^verbatim>\<open>Exception\<close>
  only. When an operation calls \<^verbatim>\<open>sys.exit(0)\<close> after a failure has been logged, the
  \<^verbatim>\<open>SystemExit\<close> leaves \<^verbatim>\<open>main\<close> and the process exits with status 0, with one failure
  logged. When an operation is interrupted from the keyboard, no failure was logged and
  the process does not exit with status 0.
\<close>

theorem exit_status_counterexample:
  "map_prod id (map_option (\<lambda>w. crash_count (reporter w)))
     (fuzz_script Imported cpython exiting_env [ustr ''fuzz.py'', ustr ''0'']) =
     (Exit 0, Some 1) \<and>
   fuzz_script Imported cpython interrupted_env [ustr ''fuzz.py'', ustr ''0''] =
     (Uncaught KeyboardInterrupt,
      Some \<lparr>reporter = \<lparr>bugs_found = [], test_count = 0, crash_count = 0\<rparr>, tick = 2,
            trace = [Invoked ''getPythonParseObject'' [PStr ''/nonexistent/.py'']]\<rparr>)"
proof -
  from exiting_second_call obtain w where
    w: "fuzz_getPythonParseObject exiting_env 0 Fuzzer_init = Inl (SystemExit 0, w)"
      "crash_count (reporter w) = 1" by blast
  have 1: "map_prod id (map_option (\<lambda>w. crash_count (reporter w)))
     (fuzz_script Imported cpython exiting_env [ustr ''fuzz.py'', ustr ''0'']) =
     (Exit 0, Some 1)"
    by (simp add: fuzz_script_def main_def parse_zero run_all_fuzzing_def run_campaigns_def w
        interpreter_end_def SystemExit_def)
  have 2: "fuzz_script Imported cpython interrupted_env [ustr ''fuzz.py'', ustr ''0''] =
     (Uncaught KeyboardInterrupt,
      Some \<lparr>reporter = \<lparr>bugs_found = [], test_count = 0, crash_count = 0\<rparr>, tick = 2,
            trace = [Invoked ''getPythonParseObject'' [PStr ''/nonexistent/.py'']]\<rparr>)"
    by (simp add: fuzz_script_def main_def parse_zero run_all_fuzzing_def run_campaigns_def
        interrupted_first_call FuzzReporter_init_def interpreter_end_def KeyboardInterrupt_def)
  from 1 2 show ?thesis by simp
qed

text \<open>
  C7, amended: when the imports fail with \<^verbatim>\<open>ImportError\<close> the script exits with status 1
  and no campaign runs. When the run reaches the end of \<^verbatim>\<open>main\<close>, the exit status is 0
  if no failure was logged and 1 if one or more were. When an exception leaves the run,
  or the imports raise anything other than \<^verbatim>\<open>ImportError\<close>, the script never reaches its
  own \<^verbatim>\<open>sys.exit\<close>: if the exception is a \<^verbatim>\<open>SystemExit\<close> the process exits with the status
  of that exception, whatever was logged, and otherwise it ends on the uncaught
  exception. So the process exits with status 0 only after a complete run that logged
  no failure, or through a \<^verbatim>\<open>SystemExit\<close> of status 0 that left the imports or the run.
\<close>

theorem exit_status:
  assumes "parse_iterations I argv = Inr (n, out)"
  shows "fuzz_script (Import_ImportError e) I E argv = (Exit 1, None) \<and>
    fuzz_script (Import_other y) I E argv = (interpreter_end y, None) \<and>
    (run_all_fuzzing E n Fuzzer_init = Inr (w, rep) \<longrightarrow>
       0 \<le> crash_count (reporter w) \<and>
       fuzz_script Imported I E argv =
         (if crash_count (reporter w) = 0 then Exit 0 else Exit 1, Some w)) \<and>
    (run_all_fuzzing E n Fuzzer_init = Inl (x, w') \<longrightarrow>
       fuzz_script Imported I E argv = (interpreter_end x, Some w')) \<and>
    (interpreter_end x = Exit s \<longleftrightarrow> exc_exit_status x = Some s) \<and>
    (exc_exit_status x = None \<longrightarrow> interpreter_end x = Uncaught x) \<and>
    (fst (fuzz_script imp I E argv) = Exit 0 \<longrightarrow>
       (imp = Imported \<and>
        (\<exists>w rep. run_all_fuzzing E n Fuzzer_init = Inr (w, rep) \<and>
           crash_count (reporter w) = 0)) \<or>
       (\<exists>z. exc_exit_status z = Some 0 \<and>
          (imp = Import_other z \<or>
           imp = Imported \<and> (\<exists>w'. run_all_fuzzing E n Fuzzer_init = Inl (z, w')))))"
proof -
  have 1: "fuzz_script (Import_ImportError e) I E argv = (Exit 1, None)"
    "fuzz_script (Import_other y) I E argv = (interpreter_end y, None)"
    by (simp_all add: fuzz_script_def)
  have 5: "exc_exit_status x = None \<longrightarrow> interpreter_end x = Uncaught x"
    by (simp add: interpreter_end_def)
  have 6: "(imp = Imported \<and>
        (\<exists>w rep. run_all_fuzzing E n Fuzzer_init = Inr (w, rep) \<and>
           crash_count (reporter w) = 0)) \<or>
       (\<exists>z. exc_exit_status z = Some 0 \<and>
          (imp = Import_other z \<or>
           imp = Imported \<and> (\<exists>w'. run_all_fuzzing E n Fuzzer_init = Inl (z, w'))))"
    if z: "fst (fuzz_script imp I E argv) = Exit 0"
  proof (cases imp)
    case Imported
    show ?thesis
    proof (cases "run_all_fuzzing E n Fuzzer_init")
      case (Inl a)
      obtain x0 w0 where a: "a = (x0, w0)" by (cases a)
      from z main_escape [OF assms Inl [unfolded a]] Imported
      have "exc_exit_status x0 = Some 0" by (simp add: interpreter_end_Exit)
      with Inl a Imported show ?thesis by blast
    next
      case (Inr b)
      obtain w0 rep0 where b: "b = (w0, rep0)" by (cases b)
      from main_exit [OF assms Inr [unfolded b]] z Imported
      have "crash_count (reporter w0) = 0" by (auto split: if_splits)
      with Inr b Imported show ?thesis by blast
    qed
  next
    case (Import_ImportError e0)
    with z show ?thesis by (simp add: fuzz_script_def)
  next
    case (Import_other y0)
    with z have "exc_exit_status y0 = Some 0"
      by (simp add: fuzz_script_def interpreter_end_Exit)
    with Import_other show ?thesis by blast
  qed
  from 1 main_exit [OF assms] main_escape [OF assms] interpreter_end_Exit [of x s] 5 6
  show ?thesis by blast
qed

theorem exit_status_witness:
  "fst (fuzz_script Imported cpython quiet_env [ustr ''fuzz.py'', ustr ''0'']) = Exit 0 \<and>
   (\<exists>w rep. run_all_fuzzing quiet_env 0 Fuzzer_init = Inr (w, rep) \<and>
      crash_count (reporter w) = 0) \<and>
   fuzz_script (Import_ImportError OSError) cpython quiet_env [ustr ''fuzz.py'', ustr ''0''] =
     (Exit 1, None) \<and>
   fuzz_script (Import_other (SystemExit 0)) cpython quiet_env [ustr ''fuzz.py'', ustr ''0''] =
     (Exit 0, None)"
proof -
  have ev: "fst (fuzz_script Imported cpython quiet_env [ustr ''fuzz.py'', ustr ''0'']) = Exit 0"
    by code_simp
  from run_all_fuzzing_completes [OF catchable_quiet_env, of 0]
  obtain w rep where r: "run_all_fuzzing quiet_env 0 Fuzzer_init = Inr (w, rep)" by auto
  have se: "interpreter_end (SystemExit 0) = Exit 0"
    by (simp add: interpreter_end_def SystemExit_def)
  from exit_status [OF parse_zero, of OSError cpython quiet_env "SystemExit 0" w rep]
  have "fuzz_script Imported cpython quiet_env [ustr ''fuzz.py'', ustr ''0''] =
         (if crash_count (reporter w) = 0 then Exit 0 else Exit 1, Some w)"
    and "fuzz_script (Import_ImportError OSError) cpython quiet_env
           [ustr ''fuzz.py'', ustr ''0''] = (Exit 1, None)"
    and "fuzz_script (Import_other (SystemExit 0)) cpython quiet_env
           [ustr ''fuzz.py'', ustr ''0''] = (interpreter_end (SystemExit 0), None)"
    using r by blast+
  with ev r se show ?thesis by (auto split: if_splits)
qed

section \<open>The expected count of the file-count campaign\<close>

text \<open>
  C6: in an iteration of the file-count campaign that fills the directory with \<open>p\<close>
  source files, \<open>q\<close> other files and \<open>r\<close> notebooks, and in which the counter returns any
  value \<open>v\<close>, the harness logs one outcome whose rendering gives the expected count as
  \<open>p + r\<close>, whatever \<open>q\<close> is, next to the returned value; the outcome is logged without
  an error, so no failure is counted and no bug is recorded, whether or not \<open>v\<close> is the
  expected count.
\<close>

theorem expected_count:
  assumes pop: "populate_directory E (Suc (tick w)) = ((p, q, r), t1)"
    and ret: "getPythonFileCount E t1 (PStr (temp_dir_name E (tick w))) = Inr v"
  shows "\<exists>w'. count_random_iteration E w = Inr w' \<and>
     trace w' = trace w @
       [Invoked ''getPythonFileCount'' [PStr (temp_dir_name E (tick w))],
        Logged ''getPythonFileCount''
          (''dir: '' @ temp_dir_name E (tick w) @ '', py_files: '' @ str_int p @
           '', ipynb: '' @ str_int r @ '', expected: '' @ str_int (p + r) @
           '', got: '' @ py_str E v) None] \<and>
     test_count (reporter w') = test_count (reporter w) + 1 \<and>
     crash_count (reporter w') = crash_count (reporter w) \<and>
     bugs_found (reporter w') = bugs_found (reporter w)"
  using pop ret
  by (simp add: count_random_iteration_def guarded_call_def invoke_def report_test_def
      log_test_def count_label_def Let_def)

theorem expected_count_witness:
  "populate_directory three_two_one_env (Suc (tick Fuzzer_init)) = ((3, 2, 1), 20) \<and>
   (\<exists>w'. count_random_iteration three_two_one_env Fuzzer_init = Inr w' \<and>
      trace w' =
        [Invoked ''getPythonFileCount'' [PStr ''/tmp/tmp0''],
         Logged ''getPythonFileCount''
           ''dir: /tmp/tmp0, py_files: 3, ipynb: 1, expected: 4, got: 7'' None] \<and>
      crash_count (reporter w') = 0)"
proof -
  have ret: "getPythonFileCount three_two_one_env 20
      (PStr (temp_dir_name three_two_one_env (tick Fuzzer_init))) = Inr (PInt 7)"
    by (simp add: three_two_one_env_def)
  have d: "temp_dir_name three_two_one_env 0 = ''/tmp/tmp0''"
    by (simp add: three_two_one_env_def quiet_env_def str_nat.simps digit_char_def)
  have s: "str_int 3 = ''3''" "str_int 1 = ''1''" "str_int 4 = ''4''" "str_int 7 = ''7''"
    by (simp_all add: str_int_def str_nat.simps digit_char_def)
  from expected_count [OF populate_three_two_one ret] populate_three_two_one
  show ?thesis
    by (auto simp add: d s Fuzzer_init_def FuzzReporter_init_def)
qed

end
